theory Spec2Isabelle
  imports Complex_Main "HOL-Library.Multiset"
begin

section \<open>Bismuth Explorer: aggregate maintenance (toolsdb.py)\<close>

text \<open>
  The exceptions that the modelled Python code can raise. \<open>LedgerError\<close> and
  \<open>StoreError\<close> stand for any \<open>sqlite3\<close> error on the ledger source
  (\<open>bis_root\<close>) and on the aggregate store (\<open>tools.db\<close>); \<open>OSError\<close> for a
  failing \<open>os.remove\<close>; \<open>LatestError\<close> for a failing \<open>toolsp.latest()\<close>;
  \<open>OtherError\<close> for an exception of the node interface that is not a
  \<open>requests\<close> exception.
\<close>

datatype py_error =
    LedgerError | StoreError | OSError | LatestError | ValueError | TypeError
  | FileError | JSONDecodeError | UnboundLocalError | OtherError

subsection \<open>Values\<close>

text \<open>
  A Python float is a finite number, an infinity or NaN. No arithmetic is done on
  balances and rewards, they are only compared with an integer, and Python compares a
  float with an int exactly; a comparison with NaN is false.
\<close>

datatype pyfloat = Finite real | PosInf | NegInf | NaN

fun float_gt :: "pyfloat \<Rightarrow> int \<Rightarrow> bool" where
  "float_gt (Finite x) n = (of_int n < x)"
| "float_gt PosInf n = True"
| "float_gt NegInf n = False"
| "float_gt NaN n = False"

fun float_le :: "pyfloat \<Rightarrow> int \<Rightarrow> bool" where
  "float_le (Finite x) n = (x \<le> of_int n)"
| "float_le PosInf n = False"
| "float_le NegInf n = True"
| "float_le NaN n = False"

text \<open>A field of the statistics tuple: \<open>float()\<close> accepts it or raises.\<close>

datatype pyval = Num pyfloat | NotNum

fun py_float :: "pyval \<Rightarrow> py_error + pyfloat" where
  "py_float (Num x) = Inr x"
| "py_float NotNum = Inl ValueError"

type_synonym address = string

text \<open>
  \<open>str.lower()\<close>, on the ASCII letters. The result is only tested for membership in
  two ASCII names, and no non-ASCII character lowers to an ASCII letter of these names.
\<close>

definition lower_char :: "char \<Rightarrow> char" where
  "lower_char c =
     (case map_of (zip ''ABCDEFGHIJKLMNOPQRSTUVWXYZ'' ''abcdefghijklmnopqrstuvwxyz'') c of
        Some l \<Rightarrow> l
      | None \<Rightarrow> c)"

definition str_lower :: "string \<Rightarrow> string" where
  "str_lower s = map lower_char s"

subsection \<open>The ledger\<close>

text \<open>
  A row of the ledger's \<open>transactions\<close> table, as \<open>SELECT *\<close> returns it. The
  table belongs to the node; the columns are named as the SQL of this repository names
  them (\<open>block_height\<close>, \<open>timestamp\<close>, \<open>address\<close>, \<open>recipient\<close>, \<open>amount\<close>,
  \<open>reward\<close>) and are positioned as explorebis.py reads such rows: index 0 is the
  block, 1 the timestamp, 2 the sending address (\<open>"from": str(b[2])\<close>), 3 the
  recipient (\<open>"to": str(b[3])\<close>), 4 the amount, 9 the reward. The pseudo-accounts
  \<open>Hypernode Payouts\<close> and \<open>Development Reward\<close> occur at index 2 (\<open>get_50\<close>
  tests \<open>r_from = r[2]\<close> for them, the search page \<open>a[2]\<close>). The other columns
  are never read by toolsdb.py. A text column that is NULL or empty is the empty string:
  the code only tests such a value for truth.
\<close>

record ledger_tx =
  tx_block_height :: int
  tx_timestamp :: real
  tx_address :: address
  tx_recipient :: address
  tx_amount :: real
  tx_reward :: real

text \<open>\<open>ORDER BY timestamp DESC\<close> and \<open>LIMIT ?\<close> (a negative limit is no limit).\<close>

definition order_by_timestamp_desc :: "ledger_tx list \<Rightarrow> ledger_tx list" where
  "order_by_timestamp_desc rows = sort_key (\<lambda>r. - tx_timestamp r) rows"

definition sql_limit :: "int \<Rightarrow> 'a list \<Rightarrow> 'a list" where
  "sql_limit n rows = (if n < 0 then rows else take (nat n) rows)"

definition select_recent :: "ledger_tx list \<Rightarrow> int \<Rightarrow> ledger_tx list" where
  "select_recent conn limit = sql_limit limit (order_by_timestamp_desc conn)"

text \<open>
  \<open>gather_all_addresses\<close>:
  \<open>SELECT DISTINCT recipient FROM transactions WHERE amount != 0 OR reward != 0\<close>.
\<close>

definition gather_all_addresses :: "ledger_tx list \<Rightarrow> address list" where
  "gather_all_addresses conn =
     remdups (map tx_recipient (filter (\<lambda>r. tx_amount r \<noteq> 0 \<or> tx_reward r \<noteq> 0) conn))"

text \<open>
  \<open>gather_delta_addresses\<close>. The Python collects into a set and returns
  \<open>list(seen)\<close>, whose order is not specified; the model keeps the order of first
  insertion, and the theorems below speak of the set of the result only. The local
  variable that the source calls \<open>recipient\<close> is \<open>row[2]\<close>, the \<open>address\<close> column,
  and the one it calls \<open>sender\<close> is \<open>row[3]\<close>, the \<open>recipient\<close> column.
\<close>

definition sink_names :: "string list" where
  "sink_names = [''hypernode payouts'', ''development reward'']"

definition seen_add :: "address \<Rightarrow> address list \<Rightarrow> address list" where
  "seen_add a seen = (if a \<in> set seen then seen else seen @ [a])"

definition delta_row :: "address list \<Rightarrow> ledger_tx \<Rightarrow> address list" where
  "delta_row seen row =
     (let recipient = tx_address row;
          seen1 = (if recipient \<noteq> [] \<and> str_lower recipient \<notin> set sink_names
                   then seen_add recipient seen else seen);
          sender = tx_recipient row
      in if sender \<noteq> [] then seen_add sender seen1 else seen1)"

definition gather_delta_addresses :: "ledger_tx list \<Rightarrow> int \<Rightarrow> address list" where
  "gather_delta_addresses conn limit = foldl delta_row [] (select_recent conn limit)"

text \<open>
  The touched addresses in the words of the specification: every recipient except the
  sink names, plus every sender. It is compared with \<open>gather_delta_addresses\<close> below.
\<close>

definition spec_touched_addresses :: "ledger_tx list \<Rightarrow> address set" where
  "spec_touched_addresses rows =
     {a. a \<in> tx_recipient ` set rows \<and> str_lower a \<notin> set sink_names} \<union> tx_address ` set rows"

subsection \<open>The aggregate store\<close>

text \<open>
  \<open>toolsp.refresh(addr, 2)\<close> returns a tuple, of which toolsdb.py reads the indices
  2 (rewards), 4 (balance), 5, 6, 7 (last block, first block, block count) and 8 (alias).
\<close>

record addr_stats =
  st_rewards :: pyval
  st_balance :: pyval
  st_blatest :: int
  st_bfirst :: int
  st_blockcount :: int
  st_alias :: string

text \<open>
  The two tables, each a list of rows in insertion order with the address first (the
  primary key): \<open>richlist(address, balance, alias)\<close> and
  \<open>minerlist(address, blatest, bfirst, blockcount, treward, mname)\<close>.
\<close>

type_synonym rich_row = "address \<times> pyfloat \<times> string"
type_synonym miner_row = "address \<times> int \<times> int \<times> int \<times> pyfloat \<times> string"

record tools_db =
  richlist :: "rich_row list"
  minerlist :: "miner_row list"

definition rich_balance :: "rich_row \<Rightarrow> pyfloat" where
  "rich_balance r = fst (snd r)"

definition miner_treward :: "miner_row \<Rightarrow> pyfloat" where
  "miner_treward r = fst (snd (snd (snd (snd r))))"

text \<open>\<open>DELETE FROM t WHERE address = ?\<close>, and its \<open>executemany\<close>.\<close>

definition delete_address :: "address \<Rightarrow> (address \<times> 'v) list \<Rightarrow> (address \<times> 'v) list" where
  "delete_address a t = filter (\<lambda>r. fst r \<noteq> a) t"

definition delete_many :: "address list \<Rightarrow> (address \<times> 'v) list \<Rightarrow> (address \<times> 'v) list" where
  "delete_many addresses t = fold delete_address addresses t"

text \<open>\<open>INSERT OR IGNORE\<close>: a row whose key is present is dropped.\<close>

definition insert_or_ignore :: "(address \<times> 'v) \<Rightarrow> (address \<times> 'v) list \<Rightarrow> (address \<times> 'v) list" where
  "insert_or_ignore r t = (if fst r \<in> set (map fst t) then t else t @ [r])"

definition insert_many :: "(address \<times> 'v) list \<Rightarrow> (address \<times> 'v) list \<Rightarrow> (address \<times> 'v) list" where
  "insert_many rows t = fold insert_or_ignore rows t"

text \<open>
  The ledger source of a cycle: \<open>sqlite3.connect(bis_root)\<close> raises, or the
  connection opens and its \<open>SELECT\<close> raises, or the query returns the rows.
\<close>

datatype ledger_source = Unopenable | Unqueryable | Ledger "ledger_tx list"

text \<open>
  What a cycle is given: the configured threshold, the ledger source,
  \<open>int(toolsp.latest()[0])\<close> (\<open>None\<close> when the call raises), \<open>toolsp.refresh\<close>
  (\<open>None\<close> when it raises for an address), whether \<open>os.remove\<close> of an existing
  \<open>tools.db\<close> succeeds, whether the store can then be created, and whether it can be
  opened and written in the transaction.
\<close>

record env =
  bis_limit :: int
  ledger :: ledger_source
  latest :: "int option"
  refresh :: "address \<Rightarrow> addr_stats option"
  store_remove_ok :: bool
  store_init_ok :: bool
  store_write_ok :: bool

text \<open>
  The loop of \<open>updatedb\<close> over the addresses. A failing \<open>toolsp.refresh\<close> skips the
  address; \<open>float()\<close> is outside the \<open>try\<close>, so its exception leaves the loop.
\<close>

fun collect_rows ::
  "(address \<Rightarrow> addr_stats option) \<Rightarrow> int \<Rightarrow> address list \<Rightarrow> rich_row list \<Rightarrow> miner_row list
     \<Rightarrow> py_error + (rich_row list \<times> miner_row list)" where
  "collect_rows rf thr [] rich_rows miner_rows = Inr (rich_rows, miner_rows)"
| "collect_rows rf thr (addr # rest) rich_rows miner_rows =
     (case rf addr of
        None \<Rightarrow> collect_rows rf thr rest rich_rows miner_rows
      | Some record \<Rightarrow>
          (case py_float (st_balance record) of
             Inl err \<Rightarrow> Inl err
           | Inr balance \<Rightarrow>
               (case py_float (st_rewards record) of
                  Inl err \<Rightarrow> Inl err
                | Inr reward \<Rightarrow>
                    collect_rows rf thr rest
                      (if float_gt balance thr
                       then rich_rows @ [(addr, balance, st_alias record)] else rich_rows)
                      (if float_gt reward 0
                       then miner_rows @ [(addr, st_blatest record, st_bfirst record,
                                           st_blockcount record, reward, st_alias record)]
                       else miner_rows))))"

text \<open>
  The store is \<open>None\<close> when the file or its tables do not exist. \<open>init_tools_db\<close>
  removes the file, then creates it with two empty tables. Neither step is in a
  \<open>try\<close>: when \<open>os.remove\<close> raises the previous store is untouched, and when the
  store cannot be created the removed file stays removed.
\<close>

definition empty_db :: tools_db where
  "empty_db = \<lparr>richlist = [], minerlist = []\<rparr>"

definition init_tools_db :: "env \<Rightarrow> tools_db option \<Rightarrow> (py_error + unit) \<times> tools_db option" where
  "init_tools_db e db =
     (if \<not> store_remove_ok e then (Inl OSError, db)
      else if store_init_ok e then (Inr (), Some empty_db)
      else (Inl StoreError, None))"

text \<open>
  Step 2 of \<open>updatedb\<close>, the transaction. An exception inside the \<open>with\<close> block
  rolls the transaction back: the store is as before.
\<close>

definition write_phase ::
  "env \<Rightarrow> bool \<Rightarrow> address list \<Rightarrow> tools_db option \<Rightarrow> (py_error + bool) \<times> tools_db option" where
  "write_phase e do_full addresses db =
     (if \<not> store_write_ok e then (Inl StoreError, db)
      else case db of
        None \<Rightarrow> (Inl StoreError, db)
      | Some t \<Rightarrow>
          (let t1 = (if \<not> do_full
                     then \<lparr>richlist = delete_many addresses (richlist t),
                           minerlist = delete_many addresses (minerlist t)\<rparr>
                     else t)
           in case collect_rows (refresh e) (bis_limit e) addresses [] [] of
                Inl err \<Rightarrow> (Inl err, db)
              | Inr (rich_rows, miner_rows) \<Rightarrow>
                  (Inr True,
                   Some \<lparr>richlist = (if rich_rows \<noteq> [] then insert_many rich_rows (richlist t1)
                                      else richlist t1),
                         minerlist = (if miner_rows \<noteq> [] then insert_many miner_rows (minerlist t1)
                                       else minerlist t1)\<rparr>)))"

definition process_addresses ::
  "env \<Rightarrow> bool \<Rightarrow> address list \<Rightarrow> tools_db option \<Rightarrow> (py_error + bool) \<times> tools_db option" where
  "process_addresses e do_full addresses db =
     (if addresses = [] then (Inr False, db) else write_phase e do_full addresses db)"

text \<open>
  Step 1 of \<open>updatedb\<close>, inside \<open>with sqlite3.connect(bis_root)\<close>: the
  addresses of the cycle, or \<open>None\<close> where \<open>updatedb\<close> returns \<open>False\<close> because
  there are no new blocks. A ledger that opens but cannot be queried is noticed at the
  \<open>SELECT\<close>, which an incremental cycle reaches after the test of the window.
\<close>

definition ledger_query ::
  "ledger_source \<Rightarrow> (ledger_tx list \<Rightarrow> address list) \<Rightarrow> py_error + address list option" where
  "ledger_query src select =
     (case src of
        Ledger conn \<Rightarrow> Inr (Some (select conn))
      | Unqueryable \<Rightarrow> Inl LedgerError
      | Unopenable \<Rightarrow> Inl LedgerError)"

definition gather_addresses ::
  "env \<Rightarrow> bool \<Rightarrow> int option \<Rightarrow> py_error + address list option" where
  "gather_addresses e do_full last_block =
     (if ledger e = Unopenable then Inl LedgerError
      else if do_full then ledger_query (ledger e) gather_all_addresses
      else
        (case latest e of
           None \<Rightarrow> Inl LatestError
         | Some latest_block \<Rightarrow>
             (case last_block of
                None \<Rightarrow> Inl TypeError
              | Some lb \<Rightarrow>
                  (let block_limit = latest_block - lb
                   in if block_limit \<le> 0 then Inr None
                      else ledger_query (ledger e)
                             (\<lambda>conn. gather_delta_addresses conn block_limit)))))"

text \<open>
  \<open>updatedb(do_full, last_block)\<close>: the result (\<open>True\<close>, \<open>False\<close> or the exception)
  and the store afterwards.
\<close>

definition updatedb ::
  "env \<Rightarrow> bool \<Rightarrow> int option \<Rightarrow> tools_db option \<Rightarrow> (py_error + bool) \<times> tools_db option" where
  "updatedb e do_full last_block db =
     (case (if do_full then init_tools_db e db else (Inr (), db)) of
        (Inl err, db1) \<Rightarrow> (Inl err, db1)
      | (Inr u, db1) \<Rightarrow>
          (case gather_addresses e do_full last_block of
             Inl err \<Rightarrow> (Inl err, db1)
           | Inr None \<Rightarrow> (Inr False, db1)
           | Inr (Some addresses) \<Rightarrow> process_addresses e do_full addresses db1))"

subsection \<open>The maintenance loop\<close>

text \<open>
  \<open>blocks.txt\<close> holds one integer. \<open>buildtoolsdb\<close> reads \<open>toolsp.latest()\<close>
  itself (\<open>latest_now\<close>) before \<open>updatedb\<close> reads it again (\<open>latest e\<close>).
\<close>

datatype checkpoint_file = NoFile | Corrupt | Stored int

record maint_state =
  blocks_file :: checkpoint_file
  store :: "tools_db option"

definition first_run :: "env \<Rightarrow> int option \<Rightarrow> maint_state \<Rightarrow> (py_error + unit) \<times> maint_state" where
  "first_run e latest_now st =
     (if blocks_file st = NoFile then
        (case latest_now of
           None \<Rightarrow> (Inl LatestError, st)
         | Some l \<Rightarrow>
             (let st1 = st\<lparr>blocks_file := Stored l\<rparr>;
                  res = updatedb e True None (store st1)
              in (case fst res of Inl err \<Rightarrow> Inl err | Inr b \<Rightarrow> Inr (),
                  st1\<lparr>store := snd res\<rparr>)))
      else (Inr (), st))"

definition buildtoolsdb_cycle ::
  "env \<Rightarrow> int option \<Rightarrow> maint_state \<Rightarrow> (py_error + bool) \<times> maint_state" where
  "buildtoolsdb_cycle e latest_now st =
     (case blocks_file st of
        NoFile \<Rightarrow> (Inl FileError, st)
      | Corrupt \<Rightarrow> (Inl ValueError, st)
      | Stored s \<Rightarrow>
          (let last_blk = s - 200
           in case latest_now of
                None \<Rightarrow> (Inl LatestError, st)
              | Some l \<Rightarrow>
                  (let st1 = st\<lparr>blocks_file := Stored l\<rparr>;
                       res = updatedb e False (Some last_blk) (store st1)
                   in (fst res, st1\<lparr>store := snd res\<rparr>))))"

text \<open>
  The \<open>while True\<close> loop, run over the cycles of a finite schedule. Nothing in
  \<open>buildtoolsdb\<close> catches an exception: the first one ends the loop.
\<close>

fun buildtoolsdb_loop ::
  "(env \<times> int option) list \<Rightarrow> maint_state \<Rightarrow> py_error option \<times> maint_state" where
  "buildtoolsdb_loop [] st = (None, st)"
| "buildtoolsdb_loop ((e, latest_now) # rest) st =
     (case buildtoolsdb_cycle e latest_now st of
        (Inl err, st') \<Rightarrow> (Some err, st')
      | (Inr b, st') \<Rightarrow> buildtoolsdb_loop rest st')"

text \<open>\<open>buildtoolsdb\<close>: the first run when \<open>blocks.txt\<close> is absent, then the loop.\<close>

definition buildtoolsdb ::
  "env \<Rightarrow> int option \<Rightarrow> (env \<times> int option) list \<Rightarrow> maint_state
     \<Rightarrow> py_error option \<times> maint_state" where
  "buildtoolsdb e latest_now schedule st =
     (case first_run e latest_now st of
        (Inl err, st') \<Rightarrow> (Some err, st')
      | (Inr u, st') \<Rightarrow> buildtoolsdb_loop schedule st')"

text \<open>
  The property that the two tables keep: every balance in \<open>richlist\<close> is above the
  threshold and every total reward in \<open>minerlist\<close> is above zero.
\<close>

definition rows_above_threshold :: "int \<Rightarrow> tools_db \<Rightarrow> bool" where
  "rows_above_threshold thr t =
     (list_all (\<lambda>r. float_gt (rich_balance r) thr) (richlist t)
      \<and> list_all (\<lambda>r. float_gt (miner_treward r) 0) (minerlist t))"

subsection \<open>A small ledger and store\<close>

text \<open>
  Three transactions (a transfer, a hypernode payout and a block reward), the statistics
  of the addresses in them, and a store left by earlier cycles. \<open>toolsp.refresh\<close>
  raises for \<open>dave\<close>.
\<close>

definition ex_ledger :: "ledger_tx list" where
  "ex_ledger =
     [\<lparr>tx_block_height = 1040, tx_timestamp = 3000, tx_address = ''alice'',
       tx_recipient = ''bob'', tx_amount = 5, tx_reward = 0\<rparr>,
      \<lparr>tx_block_height = 1045, tx_timestamp = 4000, tx_address = ''Hypernode Payouts'',
       tx_recipient = ''carol'', tx_amount = 2, tx_reward = 0\<rparr>,
      \<lparr>tx_block_height = 1050, tx_timestamp = 5000, tx_address = ''bob'',
       tx_recipient = ''dave'', tx_amount = 0, tx_reward = 15\<rparr>]"

definition ex_stats :: "real \<Rightarrow> real \<Rightarrow> addr_stats" where
  "ex_stats balance reward =
     \<lparr>st_rewards = Num (Finite reward), st_balance = Num (Finite balance),
      st_blatest = 1050, st_bfirst = 7, st_blockcount = 3, st_alias = []\<rparr>"

definition ex_refresh :: "address \<Rightarrow> addr_stats option" where
  "ex_refresh a =
     (if a = ''alice'' then Some (ex_stats (1 / 2) 0)
      else if a = ''bob'' then Some (ex_stats (26 / 5) 0)
      else if a = ''carol'' then Some (ex_stats 3 12)
      else None)"

definition ex_env :: env where
  "ex_env = \<lparr>bis_limit = 1, ledger = Ledger ex_ledger, latest = Some 1050,
            refresh = ex_refresh, store_remove_ok = True, store_init_ok = True,
            store_write_ok = True\<rparr>"

definition ex_db :: tools_db where
  "ex_db = \<lparr>richlist = [(''alice'', Finite 7, []), (''erin'', Finite 9, [])],
           minerlist = [(''carol'', 1000, 7, 2, Finite 8, [])]\<rparr>"

definition ex_db_after :: tools_db where
  "ex_db_after =
     \<lparr>richlist = [(''erin'', Finite 9, []), (''bob'', Finite (26 / 5), []),
                  (''carol'', Finite 3, [])],
      minerlist = [(''carol'', 1050, 7, 3, Finite 12, [])]\<rparr>"

section \<open>Bismuth Explorer: live-state synchronizer (explorebis.py)\<close>

text \<open>
  The synchronizer talks to the node (\<open>toolsp\<close>), to the price service
  (\<open>requests.get\<close>) and to its subscribers (\<open>socketio.emit\<close>). Each function is
  modelled by the list of such effects it performs, in order, and by its result or the
  exception it raises. What the outside world answers during one loop iteration is a
  \<open>world\<close>. Files are read and written without failure of the file system itself; a
  file that is absent or does not parse raises where the source reads it outside a
  \<open>try\<close>. Log lines are kept in the effects of the loop's exception handler only.
\<close>

subsection \<open>Data\<close>

datatype 'a disk_file = Missing | Unparseable | Parsed 'a

text \<open>
  An answer of a remote call: a value, a \<open>requests.exceptions.RequestException\<close>
  (unreachable, timeout), or any other exception.
\<close>

datatype 'a reply = Reply 'a | RequestError | OtherFailure

text \<open>The dictionary sent on \<open>my_info\<close> and kept in \<open>dump_cmc.txt\<close>.\<close>

record price_payload =
  btc :: string
  usd :: string
  fiat :: string
  toc :: string
  mess :: string

text \<open>The price table \<open>cmc_vals\<close>, kept in \<open>price_info.txt\<close>.\<close>

type_synonym cmc_table = "(string \<times> real) list"

definition default_cmc_vals :: cmc_table where
  "default_cmc_vals =
     [(''BTC'', 1 / 100000000), (''USD'', 1 / 100), (''EUR'', 1 / 100), (''GBP'', 1 / 100),
      (''CNY'', 1 / 100), (''AUD'', 1 / 100)]"

definition supported_currencies :: "string list" where
  "supported_currencies = [''BTC'', ''USD'', ''EUR'', ''GBP'', ''CNY'', ''AUD'']"

definition has_all_currencies :: "cmc_table \<Rightarrow> bool" where
  "has_all_currencies t = list_all (\<lambda>k. k \<in> set (map fst t)) supported_currencies"

text \<open>
  The body of the price answer: not JSON, or JSON in which the three prices
  \<open>y['market_data']['current_price'][...]\<close> are found (given as formatted) or not.
\<close>

datatype price_body = NotJson | Json "(string \<times> string \<times> string) option"

record node_status =
  uptime :: int
  status_fields :: string

datatype block_ref = InitialStr string | BlockHeight int

datatype event =
    MyInfo price_payload
  | MyStatus string string
  | MyLatest int string
  | MyMem string
  | MemUpdate string
  | MyToast string
  | MyWServers string string
  | MyTransactions string

datatype call =
    AnnGet | PriceApiGet | StatusGet | MempoolGet | BlockGet | BlockDetailsGet | XwsGet
  | ListLimGet

datatype effect =
  Call call | Emit event | Sleep nat | LogError string py_error | LogInfo string

text \<open>The payloads published on the price topic \<open>my_info\<close>, in order.\<close>

fun price_events :: "effect list \<Rightarrow> price_payload list" where
  "price_events [] = []"
| "price_events (Emit (MyInfo p) # es) = p # price_events es"
| "price_events (e # es) = price_events es"

text \<open>\<open>str()\<close> of a length: its decimal digits.\<close>

fun str_nat :: "nat \<Rightarrow> string" where
  "str_nat n =
     (if n < 10 then [''0123456789'' ! n]
      else str_nat (n div 10) @ [''0123456789'' ! (n mod 10)])"

declare str_nat.simps [simp del]

text \<open>
  The configuration read at start, with the two formatting functions of \<open>toolsp\<close>
  that the modelled code applies.
\<close>

record config =
  alt_curr :: string
  app_secret :: string
  dev_state :: bool
  display_time :: "int \<Rightarrow> string"
  mem_html :: "string list \<Rightarrow> string"

text \<open>
  One iteration's answers: the announcement (\<open>annget\<close>), \<open>message.txt\<close> (its
  \<open>secret\<close> and \<open>message\<close>), the price service, \<open>toolsp.get_cmc_val\<close>, the
  node status, the mempool, the last block and (for a new block) its difficulty, miner
  alias and supply as one text, the wallet servers' labels, and the transaction list
  that \<open>get_50\<close> renders.
\<close>

record world =
  w_ann :: "string reply"
  w_message_file :: "(string \<times> string) option"
  w_price :: "price_body reply"
  w_cmc_val :: "cmc_table option"
  w_status :: "node_status reply"
  w_mempool :: "string list option"
  w_block :: "int reply"
  w_block_details :: "string reply"
  w_xws :: "string list option"
  w_get50 :: "string option"

text \<open>
  The globals \<open>cmc_vals\<close>, \<open>cmc_thread\<close> and \<open>txlist50\<close> (\<open>None\<close> while
  unassigned), the two files, and the locals \<open>count\<close>, \<open>current_block\<close> and
  \<open>last_block\<close> of \<open>main_info\<close>.
\<close>

record sync_state =
  cmc_vals :: cmc_table
  cmc_thread :: "unit option"
  txlist50 :: "string option"
  dump_cmc :: "price_payload disk_file"
  price_info :: "cmc_table disk_file"
  l_count :: nat
  l_current_block :: block_ref
  l_last_block :: block_ref

subsection \<open>Start of the process\<close>

text \<open>
  Lines 139 to 147: \<open>cmc_vals\<close> is loaded from \<open>price_info.txt\<close>; when that
  fails the defaults are taken and written to the file.
\<close>

definition startup_cmc_vals :: "cmc_table disk_file \<Rightarrow> cmc_table \<times> cmc_table disk_file" where
  "startup_cmc_vals f =
     (case f of
        Parsed t \<Rightarrow> (t, f)
      | Missing \<Rightarrow> (default_cmc_vals, Parsed default_cmc_vals)
      | Unparseable \<Rightarrow> (default_cmc_vals, Parsed default_cmc_vals))"

subsection \<open>The functions of the loop\<close>

text \<open>
  \<open>cmc_alt\<close>: reading \<open>dump_cmc.txt\<close> is outside any \<open>try\<close>; the price table
  falls back to the defaults, without writing them.
\<close>

definition cmc_alt :: "string \<Rightarrow> sync_state \<Rightarrow> effect list \<times> (py_error + cmc_table)" where
  "cmc_alt message s =
     (case dump_cmc s of
        Missing \<Rightarrow> ([], Inl FileError)
      | Unparseable \<Rightarrow> ([], Inl JSONDecodeError)
      | Parsed x \<Rightarrow>
          ([Emit (MyInfo (x\<lparr>mess := message\<rparr>))],
           Inr (case price_info s of Parsed t \<Rightarrow> t | Missing \<Rightarrow> default_cmc_vals
                | Unparseable \<Rightarrow> default_cmc_vals)))"

definition get_cmc_info ::
  "world \<Rightarrow> string \<Rightarrow> string \<Rightarrow> bool \<Rightarrow> bool \<Rightarrow> sync_state
     \<Rightarrow> effect list \<times> (py_error + cmc_table) \<times> sync_state" where
  "get_cmc_info w alt testmess mystate this_dev_state s =
     (if mystate then
        (case w_price w of
           RequestError \<Rightarrow>
             (Call PriceApiGet # fst (cmc_alt testmess s), snd (cmc_alt testmess s), s)
         | OtherFailure \<Rightarrow> ([Call PriceApiGet], Inl OtherError, s)
         | Reply NotJson \<Rightarrow> ([Call PriceApiGet], Inl JSONDecodeError, s)
         | Reply (Json None) \<Rightarrow>
             (Call PriceApiGet # fst (cmc_alt testmess s), snd (cmc_alt testmess s), s)
         | Reply (Json (Some (c_btc, c_usd, c_cus))) \<Rightarrow>
             (let cmc = \<lparr>btc = c_btc, usd = c_usd, fiat = c_cus, toc = alt, mess = testmess\<rparr>;
                  s1 = s\<lparr>dump_cmc := Parsed cmc\<rparr>
              in case w_cmc_val w of
                   None \<Rightarrow>
                     ([Call PriceApiGet, Emit (MyInfo cmc)] @ fst (cmc_alt testmess s1),
                      snd (cmc_alt testmess s1), s1)
                 | Some r_cmc_vals \<Rightarrow>
                     ([Call PriceApiGet, Emit (MyInfo cmc)], Inr r_cmc_vals,
                      s1\<lparr>price_info := Parsed r_cmc_vals\<rparr>)))
      else (fst (cmc_alt testmess s), snd (cmc_alt testmess s), s))"

text \<open>
  \<open>get_status_info\<close>: the handler of the request exception assigns to \<open>st\<close>,
  which is unbound when the request itself failed.
\<close>

definition get_status_info :: "config \<Rightarrow> world \<Rightarrow> effect list \<times> (py_error + unit)" where
  "get_status_info cfg w =
     (case w_status w of
        Reply st \<Rightarrow>
          ([Call StatusGet, Emit (MyStatus (display_time cfg (uptime st)) (status_fields st))],
           Inr ())
      | RequestError \<Rightarrow> ([Call StatusGet], Inl UnboundLocalError)
      | OtherFailure \<Rightarrow> ([Call StatusGet], Inl OtherError))"

definition get_block_info :: "world \<Rightarrow> block_ref \<Rightarrow> effect list \<times> (py_error + block_ref)" where
  "get_block_info w last_blk =
     (case w_block w of
        RequestError \<Rightarrow> ([Call BlockGet], Inr last_blk)
      | OtherFailure \<Rightarrow> ([Call BlockGet], Inl OtherError)
      | Reply blheight \<Rightarrow>
          if BlockHeight blheight = last_blk then ([Call BlockGet], Inr last_blk)
          else
            (case w_block_details w of
               RequestError \<Rightarrow> ([Call BlockGet, Call BlockDetailsGet], Inr last_blk)
             | OtherFailure \<Rightarrow> ([Call BlockGet, Call BlockDetailsGet], Inl OtherError)
             | Reply details \<Rightarrow>
                 ([Call BlockGet, Call BlockDetailsGet, Emit (MyLatest blheight details)],
                  Inr (BlockHeight blheight))))"

definition get_message_info :: "config \<Rightarrow> world \<Rightarrow> effect list \<times> (py_error + string)" where
  "get_message_info cfg w =
     (case w_ann w of
        OtherFailure \<Rightarrow> ([Call AnnGet], Inl OtherError)
      | _ \<Rightarrow>
          (let n_ann = (case w_ann w of Reply ann \<Rightarrow> ann \<noteq> ''No announcement'' | _ \<Rightarrow> False);
               c_toast = (case w_ann w of
                            Reply ann \<Rightarrow> if ann \<noteq> ''No announcement''
                                         then ''Dev Team Announcement: '' @ ann else []
                          | _ \<Rightarrow> [])
           in case w_message_file w of
                None \<Rightarrow> (Call AnnGet # (if n_ann then [Emit (MyToast c_toast)] else []),
                         Inl FileError)
              | Some (my_code, message) \<Rightarrow>
                  (let this_message =
                         (if my_code = app_secret cfg then (if n_ann then c_toast else message)
                          else [])
                   in (Call AnnGet # (if n_ann then [Emit (MyToast c_toast)] else []),
                       Inr (if dev_state cfg then ''DEV MODE | '' @ this_message
                            else this_message)))))"

text \<open>
  \<open>get_wallet_servers\<close>: when \<open>toolsp.xws()\<close> raises, the count \<open>'0'\<close> is sent
  and \<open>return x\<close> finds \<open>x\<close> unbound.
\<close>

definition get_wallet_servers :: "world \<Rightarrow> effect list \<times> (py_error + string list)" where
  "get_wallet_servers w =
     (case w_xws w of
        Some x \<Rightarrow>
          ([Call XwsGet,
            Emit (MyWServers (str_nat (length x))
                    (concat (map (\<lambda>live_ones. ''<p>'' @ live_ones @ ''</p>'') x)))],
           Inr x)
      | None \<Rightarrow> ([Call XwsGet, Emit (MyWServers ''0'' [])], Inl UnboundLocalError))"

text \<open>\<open>get_mem_tx_no\<close>: every exception of the mempool request is caught.\<close>

definition get_mem_tx_no :: "config \<Rightarrow> world \<Rightarrow> effect list" where
  "get_mem_tx_no cfg w =
     (let mempool = (case w_mempool w of Some m \<Rightarrow> m | None \<Rightarrow> []);
          num_tx = (case w_mempool w of Some m \<Rightarrow> str_nat (length m) | None \<Rightarrow> ''0'')
      in [Call MempoolGet, Emit (MyMem num_tx)] @
         (if length mempool \<noteq> 0
          then [Emit (MemUpdate (mem_html cfg mempool)),
                Emit (MyToast (''There are '' @ num_tx @ '' transactions in local mempool''))]
          else [Emit (MemUpdate (mem_html cfg []))]))"

text \<open>\<open>get_50\<close>, as the text it renders, or the exception of its alias lookups.\<close>

definition get_50 :: "world \<Rightarrow> effect list \<times> (py_error + string)" where
  "get_50 w =
     (case w_get50 w of
        Some rows \<Rightarrow> ([Call ListLimGet], Inr rows)
      | None \<Rightarrow> ([Call ListLimGet], Inl OtherError))"

subsection \<open>The loop\<close>

text \<open>
  Sequencing: an exception ends the sequence with the effects and the state reached.
\<close>

definition then_do ::
  "effect list \<times> (py_error + 'a) \<times> sync_state
     \<Rightarrow> ('a \<Rightarrow> sync_state \<Rightarrow> effect list \<times> (py_error + 'b) \<times> sync_state)
     \<Rightarrow> effect list \<times> (py_error + 'b) \<times> sync_state" where
  "then_do m f =
     (case m of
        (es, Inl err, s) \<Rightarrow> (es, Inl err, s)
      | (es, Inr v, s) \<Rightarrow> (es @ fst (f v s), snd (f v s)))"

text \<open>
  The price and message step of an iteration. Both branches of \<open>count % 60 == 0\<close>
  call \<open>get_message_info\<close>; the price is asked live when the count is a multiple of
  60 and the explorer is not in developer mode.
\<close>

definition price_step ::
  "config \<Rightarrow> world \<Rightarrow> sync_state \<Rightarrow> effect list \<times> (py_error + unit) \<times> sync_state" where
  "price_step cfg w s =
     then_do (fst (get_message_info cfg w), snd (get_message_info cfg w), s)
       (\<lambda>vip_mess s.
          then_do (get_cmc_info w (alt_curr cfg) vip_mess
                     (l_count s mod 60 = 0 \<and> \<not> dev_state cfg) (dev_state cfg) s)
            (\<lambda>vals s. ([], Inr (), s\<lparr>cmc_vals := vals\<rparr>)))"

definition wallet_step ::
  "world \<Rightarrow> sync_state \<Rightarrow> effect list \<times> (py_error + unit) \<times> sync_state" where
  "wallet_step w s =
     (if l_count s = 0 \<or> l_count s mod 12 = 0
      then then_do (fst (get_wallet_servers w), snd (get_wallet_servers w), s)
             (\<lambda>x s. ([], Inr (), s))
      else ([], Inr (), s))"

definition block_step ::
  "world \<Rightarrow> sync_state \<Rightarrow> effect list \<times> (py_error + unit) \<times> sync_state" where
  "block_step w s =
     then_do (fst (get_block_info w (l_current_block s)),
              snd (get_block_info w (l_current_block s)), s)
       (\<lambda>r_block s. ([], Inr (), s\<lparr>l_current_block := r_block\<rparr>))"

definition transactions_step ::
  "world \<Rightarrow> sync_state \<Rightarrow> effect list \<times> (py_error + unit) \<times> sync_state" where
  "transactions_step w s =
     (if l_current_block s \<noteq> l_last_block s
      then then_do (fst (get_50 w), snd (get_50 w), s)
             (\<lambda>rows s. ([Emit (MyTransactions rows)], Inr (),
                         s\<lparr>txlist50 := Some rows, l_last_block := l_current_block s\<rparr>))
      else ([], Inr (), s))"

text \<open>The body of the \<open>try\<close> in \<open>main_info\<close>, one iteration.\<close>

definition main_info_body ::
  "config \<Rightarrow> world \<Rightarrow> sync_state \<Rightarrow> effect list \<times> (py_error + unit) \<times> sync_state" where
  "main_info_body cfg w s =
     then_do (price_step cfg w s) (\<lambda>u s.
     then_do (wallet_step w s) (\<lambda>u s.
     then_do (fst (get_status_info cfg w), snd (get_status_info cfg w), s) (\<lambda>u s.
     then_do (get_mem_tx_no cfg w, Inr (), s) (\<lambda>u s.
     then_do (block_step w s) (\<lambda>u s.
     then_do (transactions_step w s) (\<lambda>u s.
       ([Sleep 10], Inr (),
        s\<lparr>l_count := (if l_count s = 299 then 0 else l_count s + 1)\<rparr>)))))))"

text \<open>
  \<open>while True\<close> with its handler, run over the answers of finitely many iterations.
  The loop has no exit: the handler logs, resets \<open>cmc_thread\<close>, sleeps and ends in
  \<open>continue\<close>.
\<close>

definition loop_handler :: "py_error \<Rightarrow> effect list" where
  "loop_handler err =
     [LogError ''Error in main_info loop: '' err,
      LogInfo ''Restarting main_info loop in 10 seconds...'',
      Sleep 10]"

fun main_info_loop :: "config \<Rightarrow> world list \<Rightarrow> sync_state \<Rightarrow> effect list \<times> sync_state" where
  "main_info_loop cfg [] s = ([], s)"
| "main_info_loop cfg (w # ws) s =
     (case main_info_body cfg w s of
        (es, Inr u, s') \<Rightarrow>
          (es @ fst (main_info_loop cfg ws s'), snd (main_info_loop cfg ws s'))
      | (es, Inl err, s') \<Rightarrow>
          (es @ loop_handler err @ fst (main_info_loop cfg ws (s'\<lparr>cmc_thread := None\<rparr>)),
           snd (main_info_loop cfg ws (s'\<lparr>cmc_thread := None\<rparr>))))"

definition main_info :: "config \<Rightarrow> world list \<Rightarrow> sync_state \<Rightarrow> effect list \<times> sync_state" where
  "main_info cfg ws s =
     main_info_loop cfg ws
       (s\<lparr>l_count := 0, l_current_block := InitialStr ''1'', l_last_block := InitialStr ''0''\<rparr>)"

text \<open>The process after its start: the price table and its file, nothing else yet.\<close>

definition started :: "cmc_table disk_file \<Rightarrow> price_payload disk_file \<Rightarrow> sync_state" where
  "started pf df =
     \<lparr>cmc_vals = fst (startup_cmc_vals pf), cmc_thread = None, txlist50 = None,
      dump_cmc = df, price_info = snd (startup_cmc_vals pf),
      l_count = 0, l_current_block = InitialStr ''1'', l_last_block = InitialStr ''0''\<rparr>"

text \<open>
  The condition on \<open>toolsp.get_cmc_val\<close>, which is not part of the modelled code:
  where the loop calls it (the price service answered with the prices), a table it
  returns has every supported currency.
\<close>

definition cmc_val_complete :: "world \<Rightarrow> bool" where
  "cmc_val_complete w =
     (case w_price w of
        Reply (Json (Some prices)) \<Rightarrow>
          (case w_cmc_val w of None \<Rightarrow> True | Some t \<Rightarrow> has_all_currencies t)
      | _ \<Rightarrow> True)"

text \<open>
  The in-memory price table has every supported currency, and so has the table in
  \<open>price_info.txt\<close> when that file parses.
\<close>

definition price_tables_complete :: "sync_state \<Rightarrow> bool" where
  "price_tables_complete s =
     (has_all_currencies (cmc_vals s)
      \<and> (case price_info s of
            Parsed t \<Rightarrow> has_all_currencies t
          | Missing \<Rightarrow> True
          | Unparseable \<Rightarrow> True))"

subsection \<open>Answers of a reachable and of an unreachable world\<close>

definition ex_config :: config where
  "ex_config = \<lparr>alt_curr = ''GBP'', app_secret = ''s3cret'', dev_state = False,
               display_time = (\<lambda>n. ''up''), mem_html = concat\<rparr>"

definition ex_world :: world where
  "ex_world =
     \<lparr>w_ann = Reply ''No announcement'', w_message_file = Some (''s3cret'', ''hello''),
      w_price = Reply (Json (Some (''0.00000100'', ''0.050'', ''0.040''))),
      w_cmc_val = Some [(''BTC'', 1 / 1000000), (''USD'', 1 / 20), (''EUR'', 1 / 22),
                        (''GBP'', 1 / 25), (''CNY'', 1 / 3), (''AUD'', 1 / 13)],
      w_status = Reply \<lparr>uptime = 7200, status_fields = ''ok''\<rparr>,
      w_mempool = Some [''tx1'', ''tx2''], w_block = Reply 1050,
      w_block_details = Reply ''diff'', w_xws = Some [''wallet1''],
      w_get50 = Some ''rows''\<rparr>"

definition ex_world_down :: world where
  "ex_world_down =
     \<lparr>w_ann = RequestError, w_message_file = Some (''s3cret'', ''hello''),
      w_price = RequestError, w_cmc_val = None, w_status = RequestError,
      w_mempool = None, w_block = RequestError, w_block_details = RequestError,
      w_xws = None, w_get50 = None\<rparr>"

definition ex_dump :: price_payload where
  "ex_dump = \<lparr>btc = ''0.00000090'', usd = ''0.045'', fiat = ''0.036'', toc = ''GBP'',
             mess = ''old''\<rparr>"

section \<open>Properties of the aggregate maintenance\<close>

subsection \<open>The touched addresses\<close>

lemma set_seen_add: "set (seen_add a seen) = insert a (set seen)"
  by (auto simp: seen_add_def)

lemma distinct_seen_add: "distinct seen \<Longrightarrow> distinct (seen_add a seen)"
  by (simp add: seen_add_def)

lemma set_delta_row:
  "set (delta_row seen row) = set seen
     \<union> {a. a = tx_address row \<and> a \<noteq> [] \<and> str_lower a \<notin> set sink_names}
     \<union> {a. a = tx_recipient row \<and> a \<noteq> []}"
  by (auto simp: delta_row_def Let_def set_seen_add)

lemma distinct_delta_row: "distinct seen \<Longrightarrow> distinct (delta_row seen row)"
  by (simp add: delta_row_def Let_def distinct_seen_add)

lemma set_foldl_delta_row:
  "set (foldl delta_row seen rows) = set seen
     \<union> {a. a \<noteq> [] \<and> str_lower a \<notin> set sink_names \<and> a \<in> tx_address ` set rows}
     \<union> {a. a \<noteq> [] \<and> a \<in> tx_recipient ` set rows}"
proof (induction rows arbitrary: seen)
  case Nil
  show ?case by simp
next
  case (Cons row rows)
  show ?case
    unfolding foldl_Cons Cons.IH set_delta_row by auto
qed

lemma distinct_foldl_delta_row: "distinct seen \<Longrightarrow> distinct (foldl delta_row seen rows)"
  by (induction rows arbitrary: seen) (simp_all add: distinct_delta_row)

lemma order_by_timestamp_desc_recency:
  "sorted (map (\<lambda>r. - tx_timestamp r) (order_by_timestamp_desc conn))
   \<and> mset (order_by_timestamp_desc conn) = mset conn"
  by (simp add: order_by_timestamp_desc_def)

subsection \<open>Tables\<close>

lemma delete_many_filter: "delete_many addresses t = filter (\<lambda>r. fst r \<notin> set addresses) t"
proof (induction addresses arbitrary: t)
  case Nil
  show ?case by (simp add: delete_many_def)
next
  case (Cons a addresses)
  have "delete_many (a # addresses) t = delete_many addresses (delete_address a t)"
    by (simp add: delete_many_def)
  also have "\<dots> = filter (\<lambda>r. fst r \<notin> set addresses) (filter (\<lambda>r. fst r \<noteq> a) t)"
    by (simp add: Cons.IH delete_address_def)
  also have "\<dots> = filter (\<lambda>r. fst r \<notin> set (a # addresses)) t"
    by (auto intro: filter_cong)
  finally show ?case .
qed

lemma insert_many_append: "\<exists>new. insert_many rows t = t @ new \<and> set new \<subseteq> set rows"
proof (induction rows arbitrary: t)
  case Nil
  show ?case by (simp add: insert_many_def)
next
  case (Cons r rows)
  have step: "insert_many (r # rows) t = insert_many rows (insert_or_ignore r t)"
    by (simp add: insert_many_def)
  obtain new where new: "insert_many rows (insert_or_ignore r t) = insert_or_ignore r t @ new"
    "set new \<subseteq> set rows"
    using Cons.IH by blast
  show ?case
  proof (cases "fst r \<in> set (map fst t)")
    case True
    with new step show ?thesis by (auto simp: insert_or_ignore_def)
  next
    case False
    with new step have "insert_many (r # rows) t = t @ (r # new)"
      by (simp add: insert_or_ignore_def)
    moreover have "set (r # new) \<subseteq> set (r # rows)" using new(2) by auto
    ultimately show ?thesis by blast
  qed
qed

lemma set_insert_many: "set (insert_many rows t) \<subseteq> set t \<union> set rows"
  using insert_many_append [of rows t] by auto

lemma delete_insert_delete:
  assumes "fst ` set rows \<subseteq> set addresses"
  shows "delete_many addresses (insert_many rows (delete_many addresses t)) = delete_many addresses t"
proof -
  obtain new where new: "insert_many rows (delete_many addresses t) = delete_many addresses t @ new"
    "set new \<subseteq> set rows"
    using insert_many_append by blast
  have "filter (\<lambda>r. fst r \<notin> set addresses) new = []"
    using new(2) assms by (auto simp: filter_empty_conv)
  then show ?thesis
    by (simp add: new(1)) (simp add: delete_many_filter)
qed


subsection \<open>The loop over the addresses\<close>

lemma collect_rows_rich:
  "collect_rows rf thr addrs rich miner = Inr (r, m) \<Longrightarrow> row \<in> set r \<Longrightarrow>
   row \<in> set rich \<or>
   (fst row \<in> set addrs \<and> float_gt (rich_balance row) thr \<and>
    (\<exists>rec. rf (fst row) = Some rec \<and> py_float (st_balance rec) = Inr (rich_balance row)))"
proof (induction addrs arbitrary: rich miner)
  case Nil
  then show ?case by simp
next
  case (Cons a addrs)
  show ?case
  proof (cases "rf a")
    case None
    with Cons.prems Cons.IH [of rich miner] show ?thesis by auto
  next
    case (Some rec)
    from Cons.prems(1) Some obtain balance reward where
      b: "py_float (st_balance rec) = Inr balance" and
      w: "py_float (st_rewards rec) = Inr reward" and
      rest: "collect_rows rf thr addrs
          (if float_gt balance thr then rich @ [(a, balance, st_alias rec)] else rich)
          (if float_gt reward 0
           then miner @ [(a, st_blatest rec, st_bfirst rec, st_blockcount rec, reward, st_alias rec)]
           else miner) = Inr (r, m)"
      by (auto split: sum.splits)
    from Cons.IH [OF rest Cons.prems(2)] Some b show ?thesis
      by (auto simp: rich_balance_def split: if_splits)
  qed
qed

lemma collect_rows_miner:
  "collect_rows rf thr addrs rich miner = Inr (r, m) \<Longrightarrow> row \<in> set m \<Longrightarrow>
   row \<in> set miner \<or>
   (fst row \<in> set addrs \<and> float_gt (miner_treward row) 0 \<and>
    (\<exists>rec. rf (fst row) = Some rec \<and> py_float (st_rewards rec) = Inr (miner_treward row)))"
proof (induction addrs arbitrary: rich miner)
  case Nil
  then show ?case by simp
next
  case (Cons a addrs)
  show ?case
  proof (cases "rf a")
    case None
    with Cons.prems Cons.IH [of rich miner] show ?thesis by auto
  next
    case (Some rec)
    from Cons.prems(1) Some obtain balance reward where
      b: "py_float (st_balance rec) = Inr balance" and
      w: "py_float (st_rewards rec) = Inr reward" and
      rest: "collect_rows rf thr addrs
          (if float_gt balance thr then rich @ [(a, balance, st_alias rec)] else rich)
          (if float_gt reward 0
           then miner @ [(a, st_blatest rec, st_bfirst rec, st_blockcount rec, reward, st_alias rec)]
           else miner) = Inr (r, m)"
      by (auto split: sum.splits)
    from Cons.IH [OF rest Cons.prems(2)] Some w show ?thesis
      by (auto simp: miner_treward_def split: if_splits)
  qed
qed

lemma collect_rows_keys:
  assumes "collect_rows rf thr addrs [] [] = Inr (r, m)"
  shows "fst ` set r \<subseteq> set addrs" and "fst ` set m \<subseteq> set addrs"
  using collect_rows_rich [OF assms] collect_rows_miner [OF assms] by auto

subsection \<open>The transaction\<close>

lemma write_phase_error: "write_phase e do_full addresses db = (Inl err, db') \<Longrightarrow> db' = db"
  by (auto simp: write_phase_def Let_def split: if_splits option.splits sum.splits prod.splits)

lemma write_phase_success:
  assumes "write_phase e do_full addresses db = (Inr b, Some t')"
  shows "\<exists>t r m. db = Some t \<and> b
           \<and> collect_rows (refresh e) (bis_limit e) addresses [] [] = Inr (r, m)
           \<and> richlist t' = insert_many r (if do_full then richlist t
                                            else delete_many addresses (richlist t))
           \<and> minerlist t' = insert_many m (if do_full then minerlist t
                                             else delete_many addresses (minerlist t))"
  using assms
  by (auto simp: write_phase_def Let_def insert_many_def
      split: if_splits option.splits sum.splits prod.splits)

lemma write_phase_rich:
  assumes "write_phase e do_full addresses db = (Inr b, Some t')" and "row \<in> set (richlist t')"
  shows "(float_gt (rich_balance row) (bis_limit e) \<and>
          (\<exists>rec. refresh e (fst row) = Some rec \<and> py_float (st_balance rec) = Inr (rich_balance row)))
         \<or> (\<exists>t. db = Some t \<and> row \<in> set (richlist t) \<and> (\<not> do_full \<longrightarrow> fst row \<notin> set addresses))"
proof -
  from write_phase_success [OF assms(1)] obtain t r m where
    db: "db = Some t" and
    rows: "collect_rows (refresh e) (bis_limit e) addresses [] [] = Inr (r, m)" and
    t': "richlist t' = insert_many r (if do_full then richlist t
                                      else delete_many addresses (richlist t))"
    by blast
  have "set (richlist t')
          \<subseteq> {x \<in> set (richlist t). \<not> do_full \<longrightarrow> fst x \<notin> set addresses} \<union> set r"
    unfolding t' using set_insert_many [of r "richlist t"]
      set_insert_many [of r "delete_many addresses (richlist t)"]
    by (auto simp: delete_many_filter)
  with assms(2) have "(row \<in> set (richlist t) \<and> (\<not> do_full \<longrightarrow> fst row \<notin> set addresses))
      \<or> row \<in> set r" by auto
  then show ?thesis
  proof
    assume "row \<in> set (richlist t) \<and> (\<not> do_full \<longrightarrow> fst row \<notin> set addresses)"
    with db show ?thesis by simp
  next
    assume "row \<in> set r"
    from collect_rows_rich [OF rows this] show ?thesis by simp
  qed
qed

lemma write_phase_miner:
  assumes "write_phase e do_full addresses db = (Inr b, Some t')" and "row \<in> set (minerlist t')"
  shows "(float_gt (miner_treward row) 0 \<and>
          (\<exists>rec. refresh e (fst row) = Some rec \<and> py_float (st_rewards rec) = Inr (miner_treward row)))
         \<or> (\<exists>t. db = Some t \<and> row \<in> set (minerlist t) \<and> (\<not> do_full \<longrightarrow> fst row \<notin> set addresses))"
proof -
  from write_phase_success [OF assms(1)] obtain t r m where
    db: "db = Some t" and
    rows: "collect_rows (refresh e) (bis_limit e) addresses [] [] = Inr (r, m)" and
    t': "minerlist t' = insert_many m (if do_full then minerlist t
                                       else delete_many addresses (minerlist t))"
    by blast
  have "set (minerlist t')
          \<subseteq> {x \<in> set (minerlist t). \<not> do_full \<longrightarrow> fst x \<notin> set addresses} \<union> set m"
    unfolding t' using set_insert_many [of m "minerlist t"]
      set_insert_many [of m "delete_many addresses (minerlist t)"]
    by (auto simp: delete_many_filter)
  with assms(2) have "(row \<in> set (minerlist t) \<and> (\<not> do_full \<longrightarrow> fst row \<notin> set addresses))
      \<or> row \<in> set m" by auto
  then show ?thesis
  proof
    assume "row \<in> set (minerlist t) \<and> (\<not> do_full \<longrightarrow> fst row \<notin> set addresses)"
    with db show ?thesis by simp
  next
    assume "row \<in> set m"
    from collect_rows_miner [OF rows this] show ?thesis by simp
  qed
qed

subsection \<open>updatedb\<close>

lemma updatedb_failed:
  assumes "updatedb e do_full last_block db = (Inl err, db')"
  shows "db' = (if do_full
                then (if \<not> store_remove_ok e then db
                      else if store_init_ok e then Some empty_db else None)
                else db)"
  using assms write_phase_error [of e do_full _ _ err db']
  by (auto simp: updatedb_def init_tools_db_def process_addresses_def
      split: if_splits option.splits sum.splits prod.splits)

lemma updatedb_completed:
  assumes "updatedb e do_full last_block db = (Inr b, db')"
  shows "(gather_addresses e do_full last_block = Inr None
            \<or> gather_addresses e do_full last_block = Inr (Some []))
          \<and> \<not> b \<and> db' = (if do_full then Some empty_db else db)
         \<or> (\<exists>addresses. gather_addresses e do_full last_block = Inr (Some addresses)
               \<and> write_phase e do_full addresses (if do_full then Some empty_db else db)
                   = (Inr b, db'))"
  using assms
  by (auto simp: updatedb_def init_tools_db_def process_addresses_def
      split: if_splits option.splits sum.splits prod.splits)

lemma updatedb_rich:
  assumes "updatedb e do_full last_block db = (Inr b, Some t')" and "row \<in> set (richlist t')"
  shows "(float_gt (rich_balance row) (bis_limit e) \<and>
          (\<exists>rec. refresh e (fst row) = Some rec \<and> py_float (st_balance rec) = Inr (rich_balance row)))
         \<or> (\<not> do_full \<and> (\<exists>t. db = Some t \<and> row \<in> set (richlist t))
             \<and> (\<forall>addresses. gather_addresses e do_full last_block = Inr (Some addresses)
                   \<longrightarrow> fst row \<notin> set addresses))"
  using updatedb_completed [OF assms(1)]
proof
  assume "(gather_addresses e do_full last_block = Inr None
            \<or> gather_addresses e do_full last_block = Inr (Some []))
          \<and> \<not> b \<and> Some t' = (if do_full then Some empty_db else db)"
  with assms(2) show ?thesis by (auto simp: empty_db_def split: if_splits)
next
  assume "\<exists>addresses. gather_addresses e do_full last_block = Inr (Some addresses)
            \<and> write_phase e do_full addresses (if do_full then Some empty_db else db)
                = (Inr b, Some t')"
  then obtain addresses where
    g: "gather_addresses e do_full last_block = Inr (Some addresses)" and
    "write_phase e do_full addresses (if do_full then Some empty_db else db) = (Inr b, Some t')"
    by blast
  from write_phase_rich [OF this(2) assms(2)] g show ?thesis
    by (auto simp: empty_db_def split: if_splits)
qed

lemma updatedb_miner:
  assumes "updatedb e do_full last_block db = (Inr b, Some t')" and "row \<in> set (minerlist t')"
  shows "(float_gt (miner_treward row) 0 \<and>
          (\<exists>rec. refresh e (fst row) = Some rec \<and> py_float (st_rewards rec) = Inr (miner_treward row)))
         \<or> (\<not> do_full \<and> (\<exists>t. db = Some t \<and> row \<in> set (minerlist t))
             \<and> (\<forall>addresses. gather_addresses e do_full last_block = Inr (Some addresses)
                   \<longrightarrow> fst row \<notin> set addresses))"
  using updatedb_completed [OF assms(1)]
proof
  assume "(gather_addresses e do_full last_block = Inr None
            \<or> gather_addresses e do_full last_block = Inr (Some []))
          \<and> \<not> b \<and> Some t' = (if do_full then Some empty_db else db)"
  with assms(2) show ?thesis by (auto simp: empty_db_def split: if_splits)
next
  assume "\<exists>addresses. gather_addresses e do_full last_block = Inr (Some addresses)
            \<and> write_phase e do_full addresses (if do_full then Some empty_db else db)
                = (Inr b, Some t')"
  then obtain addresses where
    g: "gather_addresses e do_full last_block = Inr (Some addresses)" and
    "write_phase e do_full addresses (if do_full then Some empty_db else db) = (Inr b, Some t')"
    by blast
  from write_phase_miner [OF this(2) assms(2)] g show ?thesis
    by (auto simp: empty_db_def split: if_splits)
qed

lemma float_gt_not_le: "float_gt x n \<Longrightarrow> \<not> float_le x n"
  by (cases x) auto


subsection \<open>The small ledger, evaluated\<close>

lemma ex_gather: "gather_delta_addresses ex_ledger 250 = [''bob'', ''dave'', ''carol'', ''alice'']"
  by (simp add: gather_delta_addresses_def select_recent_def sql_limit_def ex_ledger_def
      order_by_timestamp_desc_def delta_row_def seen_add_def
      str_lower_def lower_char_def sink_names_def)

lemma ex_updatedb: "updatedb ex_env False (Some 800) (Some ex_db) = (Inr True, Some ex_db_after)"
  by (simp add: updatedb_def gather_addresses_def ledger_query_def ex_env_def ex_gather
      process_addresses_def write_phase_def
      ex_db_def ex_db_after_def delete_many_def delete_address_def ex_refresh_def ex_stats_def
      insert_many_def insert_or_ignore_def)


subsection \<open>Thresholds\<close>

lemma updatedb_keeps_threshold:
  assumes "updatedb e do_full last_block db = (Inr b, Some t')"
    and "\<not> do_full \<Longrightarrow> \<forall>t. db = Some t \<longrightarrow> rows_above_threshold (bis_limit e) t"
  shows "rows_above_threshold (bis_limit e) t'"
proof -
  have "float_gt (rich_balance row) (bis_limit e)" if "row \<in> set (richlist t')" for row
    using updatedb_rich [OF assms(1) that] assms(2)
    by (auto simp: rows_above_threshold_def list_all_iff)
  moreover have "float_gt (miner_treward row) 0" if "row \<in> set (minerlist t')" for row
    using updatedb_miner [OF assms(1) that] assms(2)
    by (auto simp: rows_above_threshold_def list_all_iff)
  ultimately show ?thesis
    by (simp add: rows_above_threshold_def list_all_iff)
qed

lemma updatedb_completed_store:
  "updatedb e do_full last_block db = (Inr b, db') \<Longrightarrow>
   (do_full \<longrightarrow> db' \<noteq> None) \<and> (db \<noteq> None \<longrightarrow> db' \<noteq> None)"
  by (auto simp: updatedb_def init_tools_db_def process_addresses_def write_phase_def Let_def
      split: if_splits option.splits sum.splits prod.splits)

lemma first_run_threshold:
  assumes "blocks_file st = NoFile" and "first_run e latest_now st = (Inr u, st')"
  shows "\<exists>t. store st' = Some t \<and> rows_above_threshold (bis_limit e) t"
proof -
  from assms obtain b where
    up: "updatedb e True None (store st) = (Inr b, store st')"
    by (auto simp: first_run_def Let_def prod_eq_iff split: option.splits sum.splits)
  from updatedb_completed_store [OF up] obtain t where t: "store st' = Some t" by auto
  from updatedb_keeps_threshold [of e True None "store st" b t] up t show ?thesis by simp
qed

lemma buildtoolsdb_cycle_threshold:
  assumes "buildtoolsdb_cycle e latest_now st = (Inr b, st')"
    and "store st = Some t" and "rows_above_threshold (bis_limit e) t"
  shows "\<exists>t'. store st' = Some t' \<and> rows_above_threshold (bis_limit e) t'"
proof -
  from assms(1) obtain lb where
    up: "updatedb e False lb (store st) = (Inr b, store st')"
    by (auto simp: buildtoolsdb_cycle_def Let_def prod_eq_iff
        split: checkpoint_file.splits option.splits)
  from updatedb_completed_store [OF up] assms(2) obtain t' where t': "store st' = Some t'"
    by auto
  from updatedb_keeps_threshold [of e False lb "store st" b t'] up t' assms(2,3)
  show ?thesis by simp
qed

lemma buildtoolsdb_loop_threshold:
  "buildtoolsdb_loop schedule st = (None, st') \<Longrightarrow>
   list_all (\<lambda>c. bis_limit (fst c) = thr) schedule \<Longrightarrow>
   store st = Some t \<Longrightarrow> rows_above_threshold thr t \<Longrightarrow>
   \<exists>t'. store st' = Some t' \<and> rows_above_threshold thr t'"
proof (induction schedule arbitrary: st t)
  case Nil
  then show ?case by simp
next
  case (Cons c schedule)
  obtain e latest_now where c: "c = (e, latest_now)" by (cases c)
  from Cons.prems(1) c obtain b st1 where
    cyc: "buildtoolsdb_cycle e latest_now st = (Inr b, st1)" and
    rest: "buildtoolsdb_loop schedule st1 = (None, st')"
    by (auto split: prod.splits sum.splits)
  from Cons.prems(2) c have thr: "bis_limit e = thr" and
    sched: "list_all (\<lambda>c. bis_limit (fst c) = thr) schedule" by simp_all
  from buildtoolsdb_cycle_threshold [OF cyc Cons.prems(3)] Cons.prems(4) thr
  obtain t1 where "store st1 = Some t1" "rows_above_threshold thr t1" by auto
  from Cons.IH [OF rest sched this] show ?case .
qed

lemma buildtoolsdb_threshold:
  assumes "blocks_file st = NoFile"
    and "list_all (\<lambda>c. bis_limit (fst c) = bis_limit e) schedule"
    and "buildtoolsdb e latest_now schedule st = (None, st')"
  shows "\<exists>t. store st' = Some t \<and> rows_above_threshold (bis_limit e) t"
proof -
  from assms(3) obtain u st1 where
    f: "first_run e latest_now st = (Inr u, st1)" and
    rest: "buildtoolsdb_loop schedule st1 = (None, st')"
    by (auto simp: buildtoolsdb_def split: prod.splits sum.splits)
  from first_run_threshold [OF assms(1) f]
  obtain t1 where "store st1 = Some t1" "rows_above_threshold (bis_limit e) t1" by auto
  from buildtoolsdb_loop_threshold [OF rest assms(2) this] show ?thesis .
qed

lemma ex_gather_all: "gather_all_addresses ex_ledger = [''bob'', ''carol'', ''dave'']"
  by (simp add: gather_all_addresses_def ex_ledger_def)

lemma ex_full_rebuild:
  "updatedb ex_env True None None =
     (Inr True, Some \<lparr>richlist = [(''bob'', Finite (26 / 5), []), (''carol'', Finite 3, [])],
                     minerlist = [(''carol'', 1050, 7, 3, Finite 12, [])]\<rparr>)"
  by (simp add: updatedb_def gather_addresses_def ledger_query_def init_tools_db_def ex_env_def
      ex_gather_all process_addresses_def
      write_phase_def empty_db_def ex_refresh_def ex_stats_def insert_many_def
      insert_or_ignore_def)

lemma ex_incremental_after_full:
  "updatedb ex_env False (Some 800)
       (Some \<lparr>richlist = [(''bob'', Finite (26 / 5), []), (''carol'', Finite 3, [])],
              minerlist = [(''carol'', 1050, 7, 3, Finite 12, [])]\<rparr>) =
     (Inr True, Some \<lparr>richlist = [(''bob'', Finite (26 / 5), []), (''carol'', Finite 3, [])],
                     minerlist = [(''carol'', 1050, 7, 3, Finite 12, [])]\<rparr>)"
  by (simp add: updatedb_def gather_addresses_def ledger_query_def ex_env_def ex_gather
      process_addresses_def write_phase_def
      delete_many_def delete_address_def ex_refresh_def ex_stats_def
      insert_many_def insert_or_ignore_def)

lemma ex_buildtoolsdb:
  "buildtoolsdb ex_env (Some 1000) [(ex_env, Some 1050)] \<lparr>blocks_file = NoFile, store = None\<rparr> =
     (None, \<lparr>blocks_file = Stored 1050,
             store = Some \<lparr>richlist = [(''bob'', Finite (26 / 5), []), (''carol'', Finite 3, [])],
                           minerlist = [(''carol'', 1050, 7, 3, Finite 12, [])]\<rparr>\<rparr>)"
  by (simp add: buildtoolsdb_def first_run_def buildtoolsdb_cycle_def ex_full_rebuild
      ex_incremental_after_full)

lemma ex_gather_addresses:
  "gather_addresses ex_env False (Some 800) = Inr (Some [''bob'', ''dave'', ''carol'', ''alice''])"
  by (simp add: gather_addresses_def ledger_query_def ex_env_def ex_gather)

text \<open>
  C1. After a completed full or incremental cycle (\<open>updatedb\<close> returned), every row
  of \<open>richlist\<close> has a balance strictly above the threshold and every row of
  \<open>minerlist\<close> a total reward strictly above zero; no row has a balance at or
  below the threshold or a reward at or below zero. A row is either made of the values
  fetched in this cycle or, in an incremental cycle, a row of the table before whose
  address is not among the addresses of the cycle; for these the table before must have
  had the property. An address of the cycle, in a full and in an incremental cycle
  alike, has a row only with the balance resp. reward fetched in this cycle, which is
  above the threshold resp. zero, whatever the table before was. And whenever
  \<open>buildtoolsdb\<close> starts with a first run and under one threshold, both tables have
  the property after every completed cycle.
\<close>

theorem updatedb_rows_above_threshold:
  "(updatedb e do_full last_block db = (Inr b, Some t')
      \<and> (\<not> do_full \<longrightarrow> (\<forall>t. db = Some t \<longrightarrow> rows_above_threshold (bis_limit e) t))
    \<longrightarrow> rows_above_threshold (bis_limit e) t'
       \<and> (\<forall>row \<in> set (richlist t').
            float_gt (rich_balance row) (bis_limit e) \<and> \<not> float_le (rich_balance row) (bis_limit e)
            \<and> ((\<exists>rec. refresh e (fst row) = Some rec
                       \<and> py_float (st_balance rec) = Inr (rich_balance row))
               \<or> (\<not> do_full \<and> (\<exists>t. db = Some t \<and> row \<in> set (richlist t))
                   \<and> (\<forall>addresses. gather_addresses e do_full last_block = Inr (Some addresses)
                         \<longrightarrow> fst row \<notin> set addresses))))
       \<and> (\<forall>row \<in> set (minerlist t').
            float_gt (miner_treward row) 0 \<and> \<not> float_le (miner_treward row) 0
            \<and> ((\<exists>rec. refresh e (fst row) = Some rec
                       \<and> py_float (st_rewards rec) = Inr (miner_treward row))
               \<or> (\<not> do_full \<and> (\<exists>t. db = Some t \<and> row \<in> set (minerlist t))
                   \<and> (\<forall>addresses. gather_addresses e do_full last_block = Inr (Some addresses)
                         \<longrightarrow> fst row \<notin> set addresses)))))
   \<and> (updatedb e do_full last_block db = (Inr b, Some t')
      \<and> gather_addresses e do_full last_block = Inr (Some addresses)
    \<longrightarrow> (\<forall>row \<in> set (richlist t'). fst row \<in> set addresses \<longrightarrow>
            float_gt (rich_balance row) (bis_limit e) \<and> \<not> float_le (rich_balance row) (bis_limit e)
            \<and> (\<exists>rec. refresh e (fst row) = Some rec
                      \<and> py_float (st_balance rec) = Inr (rich_balance row)))
       \<and> (\<forall>row \<in> set (minerlist t'). fst row \<in> set addresses \<longrightarrow>
            float_gt (miner_treward row) 0 \<and> \<not> float_le (miner_treward row) 0
            \<and> (\<exists>rec. refresh e (fst row) = Some rec
                      \<and> py_float (st_rewards rec) = Inr (miner_treward row))))
   \<and> (blocks_file st = NoFile
      \<and> list_all (\<lambda>c. bis_limit (fst c) = bis_limit e) schedule
      \<and> buildtoolsdb e latest_now schedule st = (None, st')
    \<longrightarrow> (\<exists>t. store st' = Some t \<and> rows_above_threshold (bis_limit e) t))"
proof (intro conjI impI)
  assume a: "updatedb e do_full last_block db = (Inr b, Some t')
      \<and> (\<not> do_full \<longrightarrow> (\<forall>t. db = Some t \<longrightarrow> rows_above_threshold (bis_limit e) t))"
  then have up: "updatedb e do_full last_block db = (Inr b, Some t')"
    and pre: "\<not> do_full \<Longrightarrow> \<forall>t. db = Some t \<longrightarrow> rows_above_threshold (bis_limit e) t"
    by simp_all
  from updatedb_keeps_threshold [OF up pre] show inv: "rows_above_threshold (bis_limit e) t'" .
  show "\<forall>row \<in> set (richlist t').
            float_gt (rich_balance row) (bis_limit e) \<and> \<not> float_le (rich_balance row) (bis_limit e)
            \<and> ((\<exists>rec. refresh e (fst row) = Some rec
                       \<and> py_float (st_balance rec) = Inr (rich_balance row))
               \<or> (\<not> do_full \<and> (\<exists>t. db = Some t \<and> row \<in> set (richlist t))
                   \<and> (\<forall>addresses. gather_addresses e do_full last_block = Inr (Some addresses)
                         \<longrightarrow> fst row \<notin> set addresses)))"
  proof
    fix row assume r: "row \<in> set (richlist t')"
    with inv have "float_gt (rich_balance row) (bis_limit e)"
      by (simp add: rows_above_threshold_def list_all_iff)
    with updatedb_rich [OF up r] show "float_gt (rich_balance row) (bis_limit e)
        \<and> \<not> float_le (rich_balance row) (bis_limit e)
        \<and> ((\<exists>rec. refresh e (fst row) = Some rec
                   \<and> py_float (st_balance rec) = Inr (rich_balance row))
           \<or> (\<not> do_full \<and> (\<exists>t. db = Some t \<and> row \<in> set (richlist t))
               \<and> (\<forall>addresses. gather_addresses e do_full last_block = Inr (Some addresses)
                     \<longrightarrow> fst row \<notin> set addresses)))"
      by (auto simp: float_gt_not_le)
  qed
  show "\<forall>row \<in> set (minerlist t').
            float_gt (miner_treward row) 0 \<and> \<not> float_le (miner_treward row) 0
            \<and> ((\<exists>rec. refresh e (fst row) = Some rec
                       \<and> py_float (st_rewards rec) = Inr (miner_treward row))
               \<or> (\<not> do_full \<and> (\<exists>t. db = Some t \<and> row \<in> set (minerlist t))
                   \<and> (\<forall>addresses. gather_addresses e do_full last_block = Inr (Some addresses)
                         \<longrightarrow> fst row \<notin> set addresses)))"
  proof
    fix row assume r: "row \<in> set (minerlist t')"
    with inv have "float_gt (miner_treward row) 0"
      by (simp add: rows_above_threshold_def list_all_iff)
    with updatedb_miner [OF up r] show "float_gt (miner_treward row) 0
        \<and> \<not> float_le (miner_treward row) 0
        \<and> ((\<exists>rec. refresh e (fst row) = Some rec
                   \<and> py_float (st_rewards rec) = Inr (miner_treward row))
           \<or> (\<not> do_full \<and> (\<exists>t. db = Some t \<and> row \<in> set (minerlist t))
               \<and> (\<forall>addresses. gather_addresses e do_full last_block = Inr (Some addresses)
                     \<longrightarrow> fst row \<notin> set addresses)))"
      by (auto simp: float_gt_not_le)
  qed
next
  assume a: "updatedb e do_full last_block db = (Inr b, Some t')
      \<and> gather_addresses e do_full last_block = Inr (Some addresses)"
  then have up: "updatedb e do_full last_block db = (Inr b, Some t')"
    and g: "gather_addresses e do_full last_block = Inr (Some addresses)"
    by simp_all
  show "\<forall>row \<in> set (richlist t'). fst row \<in> set addresses \<longrightarrow>
            float_gt (rich_balance row) (bis_limit e) \<and> \<not> float_le (rich_balance row) (bis_limit e)
            \<and> (\<exists>rec. refresh e (fst row) = Some rec
                      \<and> py_float (st_balance rec) = Inr (rich_balance row))"
  proof (intro ballI impI)
    fix row assume r: "row \<in> set (richlist t')" and t: "fst row \<in> set addresses"
    from updatedb_rich [OF up r] g t
    show "float_gt (rich_balance row) (bis_limit e) \<and> \<not> float_le (rich_balance row) (bis_limit e)
            \<and> (\<exists>rec. refresh e (fst row) = Some rec
                      \<and> py_float (st_balance rec) = Inr (rich_balance row))"
      by (auto simp: float_gt_not_le)
  qed
  show "\<forall>row \<in> set (minerlist t'). fst row \<in> set addresses \<longrightarrow>
            float_gt (miner_treward row) 0 \<and> \<not> float_le (miner_treward row) 0
            \<and> (\<exists>rec. refresh e (fst row) = Some rec
                      \<and> py_float (st_rewards rec) = Inr (miner_treward row))"
  proof (intro ballI impI)
    fix row assume r: "row \<in> set (minerlist t')" and t: "fst row \<in> set addresses"
    from updatedb_miner [OF up r] g t
    show "float_gt (miner_treward row) 0 \<and> \<not> float_le (miner_treward row) 0
            \<and> (\<exists>rec. refresh e (fst row) = Some rec
                      \<and> py_float (st_rewards rec) = Inr (miner_treward row))"
      by (auto simp: float_gt_not_le)
  qed
next
  assume "blocks_file st = NoFile
      \<and> list_all (\<lambda>c. bis_limit (fst c) = bis_limit e) schedule
      \<and> buildtoolsdb e latest_now schedule st = (None, st')"
  then show "\<exists>t. store st' = Some t \<and> rows_above_threshold (bis_limit e) t"
    using buildtoolsdb_threshold [of st e schedule latest_now st'] by simp
qed

text \<open>
  Closed instances: an incremental cycle over the small ledger with window 250, in
  which \<open>alice\<close> is touched, has a fetched balance of one half and loses her row;
  and a first run followed by one incremental cycle.
\<close>

theorem updatedb_rows_above_threshold_witness:
  "updatedb ex_env False (Some 800) (Some ex_db) = (Inr True, Some ex_db_after)
   \<and> gather_addresses ex_env False (Some 800) = Inr (Some [''bob'', ''dave'', ''carol'', ''alice''])
   \<and> rows_above_threshold (bis_limit ex_env) ex_db
   \<and> rows_above_threshold (bis_limit ex_env) ex_db_after
   \<and> list_all (\<lambda>row. \<not> float_le (rich_balance row) 1) (richlist ex_db_after)
   \<and> list_all (\<lambda>row. \<not> float_le (miner_treward row) 0) (minerlist ex_db_after)
   \<and> ''alice'' \<in> set (map fst (richlist ex_db))
   \<and> ''alice'' \<notin> set (map fst (richlist ex_db_after))
   \<and> buildtoolsdb ex_env (Some 1000) [(ex_env, Some 1050)] \<lparr>blocks_file = NoFile, store = None\<rparr> =
       (None, \<lparr>blocks_file = Stored 1050,
               store = Some \<lparr>richlist = [(''bob'', Finite (26 / 5), []), (''carol'', Finite 3, [])],
                             minerlist = [(''carol'', 1050, 7, 3, Finite 12, [])]\<rparr>\<rparr>)
   \<and> rows_above_threshold 1
       \<lparr>richlist = [(''bob'', Finite (26 / 5), []), (''carol'', Finite 3, [])],
        minerlist = [(''carol'', 1050, 7, 3, Finite 12, [])]\<rparr>"
proof -
  have pre: "rows_above_threshold (bis_limit ex_env) ex_db"
    by (simp add: rows_above_threshold_def ex_db_def ex_env_def rich_balance_def miner_treward_def)
  have lim: "bis_limit ex_env = 1" by (simp add: ex_env_def)
  have alice: "''alice'' \<in> set (map fst (richlist ex_db))"
    "''alice'' \<notin> set (map fst (richlist ex_db_after))"
    by (simp_all add: ex_db_def ex_db_after_def)
  from updatedb_rows_above_threshold [of ex_env False "Some 800" "Some ex_db" True ex_db_after
      "[''bob'', ''dave'', ''carol'', ''alice'']"
      "\<lparr>blocks_file = NoFile, store = None\<rparr>" "[(ex_env, Some 1050)]" "Some 1000"
      "\<lparr>blocks_file = Stored 1050,
        store = Some \<lparr>richlist = [(''bob'', Finite (26 / 5), []), (''carol'', Finite 3, [])],
                      minerlist = [(''carol'', 1050, 7, 3, Finite 12, [])]\<rparr>\<rparr>"]
    pre lim alice
  show ?thesis
    by (simp add: ex_updatedb ex_buildtoolsdb ex_gather_addresses list_all_iff)
qed

subsection \<open>Touched addresses of an incremental cycle\<close>

text \<open>
  C9 (as the code has it). For a positive window \<open>W\<close>, the touched addresses are the
  distinct non-empty addresses of the \<open>W\<close> most recent transactions: every sending
  address (column \<open>address\<close>, index 2) whose lowercased name is not one of the two
  pseudo-account names, and every recipient (column \<open>recipient\<close>, index 3). The
  filter on the pseudo-accounts is applied to the senders, not to the recipients.
\<close>

theorem gather_delta_addresses_touched:
  "0 < W \<Longrightarrow>
   set (gather_delta_addresses conn W) =
       {a. a \<noteq> [] \<and> str_lower a \<notin> set sink_names
           \<and> a \<in> tx_address ` set (take (nat W) (order_by_timestamp_desc conn))}
     \<union> {a. a \<noteq> [] \<and> a \<in> tx_recipient ` set (take (nat W) (order_by_timestamp_desc conn))}
   \<and> distinct (gather_delta_addresses conn W)"
  by (simp add: gather_delta_addresses_def select_recent_def sql_limit_def
      set_foldl_delta_row distinct_foldl_delta_row)

text \<open>
  A closed instance: the three transactions of the small ledger, window 250.
\<close>

theorem gather_delta_addresses_touched_witness:
  "(0::int) < 250
   \<and> set (gather_delta_addresses ex_ledger 250) = {''alice'', ''bob'', ''carol'', ''dave''}
   \<and> distinct (gather_delta_addresses ex_ledger 250)"
  using gather_delta_addresses_touched [of 250 ex_ledger]
  by (simp add: ex_gather insert_commute)

text \<open>
  C9 as the specification words it (every recipient except the sink names, plus every
  sender) fails on a hypernode payout: the code leaves the paying pseudo-account out,
  the specification's set has it as a sender.
\<close>

theorem gather_delta_addresses_counterexample:
  "set (gather_delta_addresses
          [\<lparr>tx_block_height = 100, tx_timestamp = 1000, tx_address = ''Hypernode Payouts'',
            tx_recipient = ''abc'', tx_amount = 0, tx_reward = 8\<rparr>] 1)
   \<noteq> spec_touched_addresses (select_recent
          [\<lparr>tx_block_height = 100, tx_timestamp = 1000, tx_address = ''Hypernode Payouts'',
            tx_recipient = ''abc'', tx_amount = 0, tx_reward = 8\<rparr>] 1)"
  by (simp add: gather_delta_addresses_def select_recent_def sql_limit_def
      order_by_timestamp_desc_def delta_row_def seen_add_def spec_touched_addresses_def
      str_lower_def lower_char_def sink_names_def)

subsection \<open>Idempotence\<close>

lemma insert_many_guard: "(if rows \<noteq> [] then insert_many rows t else t) = insert_many rows t"
  by (simp add: insert_many_def)

lemma delete_many_idem: "delete_many addresses (delete_many addresses t) = delete_many addresses t"
  by (simp add: delete_many_filter)

lemma write_phase_idempotent:
  "write_phase e False addresses (snd (write_phase e False addresses db))
     = write_phase e False addresses db"
proof (cases "store_write_ok e")
  case False
  then show ?thesis by (simp add: write_phase_def)
next
  case ok: True
  show ?thesis
  proof (cases db)
    case None
    with ok show ?thesis by (simp add: write_phase_def)
  next
    case (Some t)
    show ?thesis
    proof (cases "collect_rows (refresh e) (bis_limit e) addresses [] []")
      case (Inl err)
      with ok Some show ?thesis by (simp add: write_phase_def)
    next
      case (Inr rows)
      obtain r m where rows: "rows = (r, m)" by (cases rows)
      from collect_rows_keys [of "refresh e" "bis_limit e" addresses r m] Inr rows
      have keys: "fst ` set r \<subseteq> set addresses" "fst ` set m \<subseteq> set addresses"
        by simp_all
      from ok Some Inr rows show ?thesis
        by (simp add: write_phase_def insert_many_guard
            delete_insert_delete [OF keys(1)] delete_insert_delete [OF keys(2)])
    qed
  qed
qed

lemma process_addresses_idempotent:
  "process_addresses e False addresses (snd (process_addresses e False addresses db))
     = process_addresses e False addresses db"
  by (simp add: process_addresses_def write_phase_idempotent)

text \<open>
  C3. For a fixed ledger state, threshold and checkpoint, an incremental \<open>updatedb\<close>
  applied to the store that the same incremental \<open>updatedb\<close> left gives the same
  result and the same two tables, row for row.
\<close>

theorem updatedb_incremental_idempotent:
  "updatedb e False last_block (snd (updatedb e False last_block db))
     = updatedb e False last_block db"
  by (simp add: updatedb_def process_addresses_idempotent split: option.splits sum.splits)

lemma ex_updatedb_again:
  "updatedb ex_env False (Some 800) (Some ex_db_after) = (Inr True, Some ex_db_after)"
  by (simp add: updatedb_def gather_addresses_def ledger_query_def ex_env_def ex_gather
      process_addresses_def write_phase_def
      ex_db_after_def delete_many_def delete_address_def ex_refresh_def ex_stats_def
      insert_many_def insert_or_ignore_def)

theorem updatedb_incremental_idempotent_witness:
  "updatedb ex_env False (Some 800) (Some ex_db) = (Inr True, Some ex_db_after)
   \<and> updatedb ex_env False (Some 800) (Some ex_db_after) = (Inr True, Some ex_db_after)"
  using updatedb_incremental_idempotent [of ex_env "Some 800" "Some ex_db"]
  by (simp add: ex_updatedb)

subsection \<open>Failure\<close>

lemma updatedb_incremental_error:
  "updatedb e False last_block db = (Inl err, db') \<Longrightarrow> db' = db"
  using updatedb_failed [of e False last_block db err db'] by simp

lemma updatedb_full_error:
  "updatedb e True last_block db = (Inl err, db') \<Longrightarrow>
   db' = (if \<not> store_remove_ok e then db
          else if store_init_ok e then Some empty_db else None)"
  using updatedb_failed [of e True last_block db err db'] by simp

lemma buildtoolsdb_cycle_error:
  assumes "buildtoolsdb_cycle e latest_now st = (Inl err, st')"
  shows "store st' = store st"
  using assms updatedb_incremental_error [of e _ "store st" err "snd (updatedb e False _ (store st))"]
  by (auto simp: buildtoolsdb_cycle_def Let_def prod_eq_iff
      split: checkpoint_file.splits option.splits)

text \<open>
  C2 (as the code has it). An incremental cycle that fails, at the ledger source or at
  the aggregate store, leaves both tables as they were. A full rebuild leaves them as
  they were only when it fails at \<open>os.remove\<close>; after the removal a failing full
  rebuild leaves the fresh empty store, or none when it could not be created. No
  exception is caught in \<open>buildtoolsdb\<close>: the failed cycle ends the loop and no
  later cycle runs.
\<close>

theorem failed_cycle_store:
  "(updatedb e False last_block db = (Inl err, db') \<longrightarrow> db' = db)
   \<and> (updatedb e True last_block db = (Inl err, db') \<longrightarrow>
        db' = (if \<not> store_remove_ok e then db
               else if store_init_ok e then Some empty_db else None))
   \<and> (buildtoolsdb_cycle e latest_now st = (Inl err, st') \<longrightarrow>
        store st' = store st \<and> buildtoolsdb_loop ((e, latest_now) # rest) st = (Some err, st'))"
  using updatedb_incremental_error [of e last_block db err db']
    updatedb_full_error [of e last_block db err db']
    buildtoolsdb_cycle_error [of e latest_now st err st']
  by simp

lemma ex_updatedb_unwritable:
  "updatedb (ex_env\<lparr>store_write_ok := False\<rparr>) False (Some 800) (Some ex_db)
     = (Inl StoreError, Some ex_db)"
  by (simp add: updatedb_def gather_addresses_def ledger_query_def ex_env_def ex_gather
      process_addresses_def write_phase_def)

lemma ex_cycle_unwritable:
  "buildtoolsdb_cycle (ex_env\<lparr>store_write_ok := False\<rparr>) (Some 1050)
       \<lparr>blocks_file = Stored 1000, store = Some ex_db\<rparr>
     = (Inl StoreError, \<lparr>blocks_file = Stored 1050, store = Some ex_db\<rparr>)"
  by (simp add: buildtoolsdb_cycle_def ex_updatedb_unwritable)

text \<open>
  Closed instances: an incremental cycle with an unwritable store, a full rebuild whose
  \<open>os.remove\<close> fails, a full rebuild whose ledger cannot be opened, and a loop of
  two scheduled cycles whose first fails.
\<close>

theorem failed_cycle_store_witness:
  "updatedb (ex_env\<lparr>store_write_ok := False\<rparr>) False (Some 800) (Some ex_db)
     = (Inl StoreError, Some ex_db)
   \<and> updatedb (ex_env\<lparr>store_remove_ok := False\<rparr>) True None (Some ex_db)
     = (Inl OSError, Some ex_db)
   \<and> updatedb (ex_env\<lparr>ledger := Unopenable\<rparr>) True None (Some ex_db)
     = (Inl LedgerError, Some empty_db)
   \<and> buildtoolsdb_loop [(ex_env\<lparr>store_write_ok := False\<rparr>, Some 1050), (ex_env, Some 1060)]
        \<lparr>blocks_file = Stored 1000, store = Some ex_db\<rparr>
     = (Some StoreError, \<lparr>blocks_file = Stored 1050, store = Some ex_db\<rparr>)"
  using failed_cycle_store [of "ex_env\<lparr>store_write_ok := False\<rparr>" "Some 800" "Some ex_db"
      StoreError "Some ex_db" "Some 1050" "\<lparr>blocks_file = Stored 1000, store = Some ex_db\<rparr>"
      "\<lparr>blocks_file = Stored 1050, store = Some ex_db\<rparr>" "[(ex_env, Some 1060)]"]
    failed_cycle_store [of "ex_env\<lparr>ledger := Unopenable\<rparr>" None "Some ex_db"
      LedgerError "Some empty_db" None "\<lparr>blocks_file = NoFile, store = None\<rparr>"
      "\<lparr>blocks_file = NoFile, store = None\<rparr>" "[]"]
    failed_cycle_store [of "ex_env\<lparr>store_remove_ok := False\<rparr>" None "Some ex_db"
      OSError "Some ex_db" None "\<lparr>blocks_file = NoFile, store = None\<rparr>"
      "\<lparr>blocks_file = NoFile, store = None\<rparr>" "[]"]
  by (simp add: ex_updatedb_unwritable ex_cycle_unwritable)
     (simp add: updatedb_def gather_addresses_def init_tools_db_def ex_env_def)

text \<open>
  C2 as stated fails: a full rebuild whose ledger source cannot be opened has already
  replaced the previous tables by empty ones, and the cycle scheduled after a failed
  one is not run.
\<close>

theorem full_rebuild_failure_counterexample:
  "updatedb (ex_env\<lparr>ledger := Unopenable\<rparr>) True None (Some ex_db)
     = (Inl LedgerError, Some empty_db)
   \<and> Some empty_db \<noteq> Some ex_db
   \<and> fst (buildtoolsdb_loop [(ex_env\<lparr>store_write_ok := False\<rparr>, Some 1050), (ex_env, Some 1060)]
        \<lparr>blocks_file = Stored 1000, store = Some ex_db\<rparr>) = Some StoreError"
  by (simp add: updatedb_def gather_addresses_def ledger_query_def init_tools_db_def ex_env_def
      empty_db_def ex_db_def buildtoolsdb_cycle_def ex_gather process_addresses_def
      write_phase_def)

subsection \<open>Checkpoint\<close>

text \<open>
  C4. With \<open>S\<close> stored in \<open>blocks.txt\<close> and the ledger head read as \<open>L\<close>
  (by \<open>buildtoolsdb\<close> and again by \<open>updatedb\<close>), the file holds \<open>L\<close> after the
  cycle, and the cycle works on the \<open>L - (S - 200)\<close> most recent transactions; when
  that window is not positive the cycle does nothing else.
\<close>

theorem buildtoolsdb_cycle_checkpoint:
  assumes "blocks_file st = Stored S" and "latest e = Some L" and "ledger e = Ledger conn"
  shows "blocks_file (snd (buildtoolsdb_cycle e (Some L) st)) = Stored L
     \<and> (L - (S - 200) \<le> 0 \<longrightarrow>
          buildtoolsdb_cycle e (Some L) st = (Inr False, st\<lparr>blocks_file := Stored L\<rparr>))
     \<and> (0 < L - (S - 200) \<longrightarrow>
          buildtoolsdb_cycle e (Some L) st =
            (let res = process_addresses e False
                         (foldl delta_row []
                            (take (nat (L - (S - 200))) (order_by_timestamp_desc conn)))
                         (store st)
             in (fst res, st\<lparr>blocks_file := Stored L, store := snd res\<rparr>)))"
  using assms
  by (simp add: buildtoolsdb_cycle_def updatedb_def gather_addresses_def ledger_query_def
      Let_def gather_delta_addresses_def select_recent_def sql_limit_def)

theorem buildtoolsdb_cycle_checkpoint_witness:
  "(1050::int) - (1000 - 200) = 250
   \<and> buildtoolsdb_cycle ex_env (Some 1050) \<lparr>blocks_file = Stored 1000, store = Some ex_db\<rparr>
     = (fst (process_addresses ex_env False
               (foldl delta_row [] (take 250 (order_by_timestamp_desc ex_ledger))) (Some ex_db)),
        \<lparr>blocks_file = Stored 1050,
          store = snd (process_addresses ex_env False
               (foldl delta_row [] (take 250 (order_by_timestamp_desc ex_ledger))) (Some ex_db))\<rparr>)
   \<and> buildtoolsdb_cycle ex_env (Some 1050) \<lparr>blocks_file = Stored 1000, store = Some ex_db\<rparr>
     = (Inr True, \<lparr>blocks_file = Stored 1050, store = Some ex_db_after\<rparr>)"
proof -
  have l: "latest ex_env = Some 1050" and c: "ledger ex_env = Ledger ex_ledger"
    by (simp_all add: ex_env_def)
  have b: "blocks_file \<lparr>blocks_file = Stored 1000, store = Some ex_db\<rparr> = Stored 1000"
    by simp
  have run: "buildtoolsdb_cycle ex_env (Some 1050) \<lparr>blocks_file = Stored 1000, store = Some ex_db\<rparr>
     = (Inr True, \<lparr>blocks_file = Stored 1050, store = Some ex_db_after\<rparr>)"
    by (simp add: buildtoolsdb_cycle_def ex_updatedb)
  from buildtoolsdb_cycle_checkpoint [OF b l c] run show ?thesis
    by (simp add: Let_def)
qed

section \<open>Properties of the synchronizer\<close>

subsection \<open>Sequencing\<close>

lemma then_do_Inl: "then_do (es, Inl err, s) f = (es, Inl err, s)"
  by (simp add: then_do_def)

lemma then_do_Inr: "then_do (es, Inr v, s) f = (es @ fst (f v s), snd (f v s))"
  by (simp add: then_do_def)

lemma set_then_do:
  "set (fst (then_do m f)) =
     set (fst m) \<union> (case fst (snd m) of Inl err \<Rightarrow> {}
                     | Inr v \<Rightarrow> set (fst (f v (snd (snd m)))))"
  by (cases m; cases "fst (snd m)") (auto simp: then_do_def)

lemma then_do_preserves:
  assumes "P (snd (snd m))" and "\<And>v s. P s \<Longrightarrow> P (snd (snd (f v s)))"
  shows "P (snd (snd (then_do m f)))"
proof (cases m)
  case (fields es r s)
  with assms show ?thesis
    by (cases r) (auto simp: then_do_def)
qed

lemma then_do_failed:
  assumes "isl (fst (snd (then_do m f)))" and "P (snd (snd m))"
    and "\<And>v s. P s \<Longrightarrow> isl (fst (snd (f v s))) \<Longrightarrow> P (snd (snd (f v s)))"
  shows "P (snd (snd (then_do m f)))"
proof (cases m)
  case (fields es r s)
  with assms show ?thesis
    by (cases r) (auto simp: then_do_def)
qed

subsection \<open>Effects of the steps\<close>

lemma get_message_info_effects:
  "Call AnnGet \<in> set (fst (get_message_info cfg w))"
  "Call PriceApiGet \<notin> set (fst (get_message_info cfg w))"
  "Sleep n \<notin> set (fst (get_message_info cfg w))"
  by (auto simp: get_message_info_def Let_def split: reply.splits option.splits prod.splits)

lemma cmc_alt_effects:
  "Call c \<notin> set (fst (cmc_alt m s))" "Sleep n \<notin> set (fst (cmc_alt m s))"
  by (auto simp: cmc_alt_def split: disk_file.splits)

lemma get_cmc_info_effects:
  "Call PriceApiGet \<in> set (fst (get_cmc_info w alt m mystate dv s)) \<longleftrightarrow> mystate"
  "Sleep n \<notin> set (fst (get_cmc_info w alt m mystate dv s))"
  by (auto simp: get_cmc_info_def Let_def cmc_alt_effects
      split: reply.splits option.splits prod.splits price_body.splits)

lemma price_step_effects:
  "Call AnnGet \<in> set (fst (price_step cfg w s))"
  "Call PriceApiGet \<in> set (fst (price_step cfg w s)) \<longleftrightarrow>
     \<not> isl (snd (get_message_info cfg w)) \<and> l_count s mod 60 = 0 \<and> \<not> dev_state cfg"
  "Sleep n \<notin> set (fst (price_step cfg w s))"
  by (auto simp: price_step_def set_then_do get_message_info_effects get_cmc_info_effects
      split: sum.splits)

lemma wallet_step_effects:
  "Call AnnGet \<notin> set (fst (wallet_step w s))"
  "Call PriceApiGet \<notin> set (fst (wallet_step w s))"
  "Sleep n \<notin> set (fst (wallet_step w s))"
  by (auto simp: wallet_step_def set_then_do get_wallet_servers_def
      split: sum.splits option.splits)

lemma get_status_info_effects:
  "Call AnnGet \<notin> set (fst (get_status_info cfg w))"
  "Call PriceApiGet \<notin> set (fst (get_status_info cfg w))"
  "Sleep n \<notin> set (fst (get_status_info cfg w))"
  by (auto simp: get_status_info_def split: reply.splits)

lemma get_mem_tx_no_effects:
  "Call AnnGet \<notin> set (get_mem_tx_no cfg w)"
  "Call PriceApiGet \<notin> set (get_mem_tx_no cfg w)"
  "Sleep n \<notin> set (get_mem_tx_no cfg w)"
  by (auto simp: get_mem_tx_no_def Let_def split: option.splits)

lemma block_step_effects:
  "Call AnnGet \<notin> set (fst (block_step w s))"
  "Call PriceApiGet \<notin> set (fst (block_step w s))"
  "Sleep n \<notin> set (fst (block_step w s))"
  by (auto simp: block_step_def set_then_do get_block_info_def
      split: sum.splits reply.splits if_splits)

lemma transactions_step_effects:
  "Call AnnGet \<notin> set (fst (transactions_step w s))"
  "Call PriceApiGet \<notin> set (fst (transactions_step w s))"
  "Sleep n \<notin> set (fst (transactions_step w s))"
  by (auto simp: transactions_step_def set_then_do get_50_def
      split: sum.splits option.splits if_splits)

lemma main_info_body_calls:
  "Call AnnGet \<in> set (fst (main_info_body cfg w s))"
  "Call PriceApiGet \<in> set (fst (main_info_body cfg w s)) \<longleftrightarrow>
     Call PriceApiGet \<in> set (fst (price_step cfg w s))"
  by (auto simp: main_info_body_def set_then_do price_step_effects(1) wallet_step_effects
      get_status_info_effects get_mem_tx_no_effects block_step_effects
      transactions_step_effects split: sum.splits)

subsection \<open>The counter and the sleeps\<close>

lemma get_cmc_info_count: "l_count (snd (snd (get_cmc_info w alt m mystate dv s))) = l_count s"
  by (simp add: get_cmc_info_def Let_def
      split: reply.splits option.splits prod.splits price_body.splits)

lemma price_step_count: "l_count (snd (snd (price_step cfg w s))) = l_count s"
  unfolding price_step_def
  by (intro then_do_preserves [where P = "\<lambda>s'. l_count s' = l_count s"])
     (simp_all add: get_cmc_info_count)

lemma wallet_step_count: "l_count (snd (snd (wallet_step w s))) = l_count s"
  by (simp add: wallet_step_def then_do_def split: sum.splits)

lemma block_step_count: "l_count (snd (snd (block_step w s))) = l_count s"
  by (simp add: block_step_def then_do_def split: sum.splits)

lemma transactions_step_count: "l_count (snd (snd (transactions_step w s))) = l_count s"
  by (simp add: transactions_step_def then_do_def split: sum.splits)

lemma main_info_body_failed_count:
  assumes "isl (fst (snd (main_info_body cfg w s)))"
  shows "l_count (snd (snd (main_info_body cfg w s))) = l_count s"
  using assms unfolding main_info_body_def
  apply -
  apply (erule then_do_failed [where P = "\<lambda>s'. l_count s' = l_count s"])
   apply (simp add: price_step_count)
  apply (erule then_do_failed [where P = "\<lambda>s'. l_count s' = l_count s"])
   apply (simp add: wallet_step_count)
  apply (erule then_do_failed [where P = "\<lambda>s'. l_count s' = l_count s"])
   apply simp
  apply (erule then_do_failed [where P = "\<lambda>s'. l_count s' = l_count s"])
   apply simp
  apply (erule then_do_failed [where P = "\<lambda>s'. l_count s' = l_count s"])
   apply (simp add: block_step_count)
  apply (erule then_do_failed [where P = "\<lambda>s'. l_count s' = l_count s"])
   apply (simp add: transactions_step_count)
  apply simp
  done

lemma filter_then_do:
  "filter Q (fst (then_do m f)) =
     filter Q (fst m) @ (case fst (snd m) of Inl err \<Rightarrow> []
                         | Inr v \<Rightarrow> filter Q (fst (f v (snd (snd m)))))"
  by (cases m; cases "fst (snd m)") (auto simp: then_do_def)

lemma isl_then_do:
  "isl (fst (snd (then_do m f))) =
     (case fst (snd m) of Inl err \<Rightarrow> True | Inr v \<Rightarrow> isl (fst (snd (f v (snd (snd m))))))"
  by (cases m; cases "fst (snd m)") (auto simp: then_do_def)

lemma no_sleep:
  "filter (\<lambda>e. e = Sleep 10) (fst (price_step cfg w s)) = []"
  "filter (\<lambda>e. e = Sleep 10) (fst (wallet_step w s)) = []"
  "filter (\<lambda>e. e = Sleep 10) (fst (get_status_info cfg w)) = []"
  "filter (\<lambda>e. e = Sleep 10) (get_mem_tx_no cfg w) = []"
  "filter (\<lambda>e. e = Sleep 10) (fst (block_step w s)) = []"
  "filter (\<lambda>e. e = Sleep 10) (fst (transactions_step w s)) = []"
  using price_step_effects(3) [of 10 cfg w s] wallet_step_effects(3) [of 10 w s]
    get_status_info_effects(3) [of 10 cfg w] get_mem_tx_no_effects(3) [of 10 cfg w]
    block_step_effects(3) [of 10 w s] transactions_step_effects(3) [of 10 w s]
  by (auto simp: filter_empty_conv)

lemma main_info_body_sleeps:
  "length (filter (\<lambda>e. e = Sleep 10) (fst (main_info_body cfg w s))) =
     (if isl (fst (snd (main_info_body cfg w s))) then 0 else 1)"
  by (simp add: main_info_body_def filter_then_do isl_then_do no_sleep split: sum.splits)

lemma main_info_loop_sleeps:
  "length (filter (\<lambda>e. e = Sleep 10) (fst (main_info_loop cfg ws s))) = length ws"
proof (induction ws arbitrary: s)
  case Nil
  show ?case by simp
next
  case (Cons w ws)
  obtain es r s' where body: "main_info_body cfg w s = (es, r, s')"
    by (cases "main_info_body cfg w s") auto
  from main_info_body_sleeps [of cfg w s] body
  have es: "length (filter (\<lambda>e. e = Sleep 10) es) = (if isl r then 0 else 1)"
    by simp
  show ?case
  proof (cases r)
    case (Inl err)
    with body es Cons.IH show ?thesis by (simp add: loop_handler_def)
  next
    case (Inr u)
    with body es Cons.IH show ?thesis by simp
  qed
qed

subsection \<open>An exception in the loop body\<close>

text \<open>
  C6 (as the code has it). When the body of an iteration raises, the loop logs the
  error, resets \<open>cmc_thread\<close>, sleeps 10 seconds and goes on with the next
  iteration, the count unchanged: the handler ends in \<open>continue\<close>. Over any
  schedule every iteration, failed or not, ends in exactly one sleep of 10 seconds, so
  none is left out after a failure.
\<close>

theorem loop_resumes_after_exception:
  "(main_info_body cfg w s = (es, Inl err, s') \<longrightarrow>
      main_info_loop cfg (w # ws) s =
        (es @ [LogError ''Error in main_info loop: '' err,
               LogInfo ''Restarting main_info loop in 10 seconds...'', Sleep 10]
            @ fst (main_info_loop cfg ws (s'\<lparr>cmc_thread := None\<rparr>)),
         snd (main_info_loop cfg ws (s'\<lparr>cmc_thread := None\<rparr>)))
      \<and> l_count s' = l_count s)
   \<and> length (filter (\<lambda>e. e = Sleep 10) (fst (main_info_loop cfg ws s))) = length ws"
  using main_info_body_failed_count [of cfg w s] main_info_loop_sleeps [of cfg ws s]
  by (auto simp: loop_handler_def)

subsection \<open>The price table\<close>

lemma has_all_default: "has_all_currencies default_cmc_vals"
  by (simp add: has_all_currencies_def default_cmc_vals_def supported_currencies_def)

lemma cmc_alt_complete:
  "price_tables_complete s \<Longrightarrow> snd (cmc_alt m s) = Inr t \<Longrightarrow> has_all_currencies t"
  by (auto simp: cmc_alt_def price_tables_complete_def has_all_default split: disk_file.splits)

lemma price_tables_complete_dump:
  "price_tables_complete (s\<lparr>dump_cmc := d\<rparr>) = price_tables_complete s"
  by (simp add: price_tables_complete_def)

lemma get_cmc_info_complete:
  assumes "price_tables_complete s" and "cmc_val_complete w"
    and "get_cmc_info w alt m mystate dv s = (es, r, s')"
  shows "price_tables_complete s'" and "r = Inr t \<Longrightarrow> has_all_currencies t"
  using assms cmc_alt_complete [of s m t]
    cmc_alt_complete [of "s\<lparr>dump_cmc := d\<rparr>" m t for d]
  by (auto simp: get_cmc_info_def Let_def cmc_val_complete_def price_tables_complete_dump
      price_tables_complete_def
      split: reply.splits option.splits prod.splits price_body.splits if_splits)

lemma price_tables_complete_vals:
  "price_tables_complete s \<Longrightarrow> has_all_currencies t \<Longrightarrow>
   price_tables_complete (s\<lparr>cmc_vals := t\<rparr>)"
  by (simp add: price_tables_complete_def)

lemma price_step_complete:
  assumes "price_tables_complete s" and "cmc_val_complete w"
  shows "price_tables_complete (snd (snd (price_step cfg w s)))"
proof (cases "snd (get_message_info cfg w)")
  case (Inl err)
  with assms(1) show ?thesis by (simp add: price_step_def then_do_def)
next
  case (Inr vip_mess)
  obtain es r s' where g: "get_cmc_info w (alt_curr cfg) vip_mess
      (l_count s mod 60 = 0 \<and> \<not> dev_state cfg) (dev_state cfg) s = (es, r, s')"
    by (cases "get_cmc_info w (alt_curr cfg) vip_mess
      (l_count s mod 60 = 0 \<and> \<not> dev_state cfg) (dev_state cfg) s") auto
  note c = get_cmc_info_complete [OF assms g]
  show ?thesis
  proof (cases r)
    case (Inl err)
    with Inr g c(1) show ?thesis by (simp add: price_step_def then_do_def)
  next
    case r: (Inr vals)
    with c(2) have "has_all_currencies vals" by simp
    with Inr g r c(1) show ?thesis
      by (simp add: price_step_def then_do_def price_tables_complete_vals)
  qed
qed

lemma other_steps_complete:
  "price_tables_complete (snd (snd (wallet_step w s))) = price_tables_complete s"
  "price_tables_complete (snd (snd (block_step w s))) = price_tables_complete s"
  "price_tables_complete (snd (snd (transactions_step w s))) = price_tables_complete s"
  by (simp_all add: wallet_step_def block_step_def transactions_step_def then_do_def
      price_tables_complete_def split: sum.splits)

lemma price_tables_complete_count:
  "price_tables_complete (s\<lparr>l_count := n\<rparr>) = price_tables_complete s"
  by (simp add: price_tables_complete_def)

lemma main_info_body_complete:
  assumes "price_tables_complete s" and "cmc_val_complete w"
  shows "price_tables_complete (snd (snd (main_info_body cfg w s)))"
  unfolding main_info_body_def
  by (intro then_do_preserves [where P = price_tables_complete])
     (simp_all add: price_step_complete [OF assms] other_steps_complete
       price_tables_complete_count)

lemma main_info_loop_complete:
  "price_tables_complete s \<Longrightarrow> list_all cmc_val_complete ws \<Longrightarrow>
   price_tables_complete (snd (main_info_loop cfg ws s))"
proof (induction ws arbitrary: s)
  case Nil
  then show ?case by simp
next
  case (Cons w ws)
  obtain es r s' where body: "main_info_body cfg w s = (es, r, s')"
    by (cases "main_info_body cfg w s") auto
  from main_info_body_complete [of s w cfg] Cons.prems body
  have s': "price_tables_complete s'" by simp
  then have "price_tables_complete (s'\<lparr>cmc_thread := None\<rparr>)"
    by (simp add: price_tables_complete_def)
  with s' Cons.IH Cons.prems(2) body show ?case
    by (cases r) simp_all
qed

lemma started_complete:
  "pf = Missing \<or> pf = Unparseable \<Longrightarrow> price_tables_complete (started pf df)"
  by (auto simp: started_def startup_cmc_vals_def price_tables_complete_def has_all_default)

text \<open>
  C10. When \<open>price_info.txt\<close> is missing or does not parse at the start, the price
  table is the default one, which has every supported currency, and the file is
  rewritten with it. From then on the table in memory has every supported currency
  after any number of loop iterations, whatever the node and the price service answer,
  as long as a table that \<open>toolsp.get_cmc_val\<close> returns has them; this includes
  the runs without network and without a price dump of an earlier run.
\<close>

theorem startup_price_table:
  assumes "pf = Missing \<or> pf = Unparseable" and "list_all cmc_val_complete ws"
  shows "startup_cmc_vals pf = (default_cmc_vals, Parsed default_cmc_vals)
       \<and> map fst default_cmc_vals = supported_currencies
       \<and> has_all_currencies (cmc_vals (started pf df))
       \<and> has_all_currencies (cmc_vals (snd (main_info cfg ws (started pf df))))"
proof -
  have "price_tables_complete
          ((started pf df)\<lparr>l_count := 0, l_current_block := InitialStr ''1'',
                            l_last_block := InitialStr ''0''\<rparr>)"
    using started_complete [OF assms(1), of df] by (simp add: price_tables_complete_def)
  from main_info_loop_complete [OF this assms(2), of cfg]
  have "has_all_currencies (cmc_vals (snd (main_info cfg ws (started pf df))))"
    by (simp add: main_info_def price_tables_complete_def)
  with assms(1) started_complete [OF assms(1), of df] show ?thesis
    by (auto simp: startup_cmc_vals_def default_cmc_vals_def supported_currencies_def
        price_tables_complete_def)
qed

subsection \<open>The example worlds, evaluated\<close>

lemmas sync_defs =
  main_info_body_def price_step_def wallet_step_def block_step_def
  transactions_step_def then_do_def get_message_info_def get_cmc_info_def cmc_alt_def
  get_wallet_servers_def get_status_info_def get_mem_tx_no_def get_block_info_def
  get_50_def ex_config_def ex_world_def ex_world_down_def started_def startup_cmc_vals_def
  ex_dump_def Let_def str_nat.simps

lemma ex_body_down:
  "main_info_body ex_config ex_world_down (started Missing (Parsed ex_dump)) =
     ([Call AnnGet, Call PriceApiGet, Emit (MyInfo (ex_dump\<lparr>mess := ''hello''\<rparr>)),
       Call XwsGet, Emit (MyWServers ''0'' [])],
      Inl UnboundLocalError, started Missing (Parsed ex_dump))"
  by (simp add: sync_defs)

lemma ex_body_up:
  "fst (main_info_body ex_config ex_world (started Missing (Parsed ex_dump))) =
     [Call AnnGet, Call PriceApiGet,
      Emit (MyInfo \<lparr>btc = ''0.00000100'', usd = ''0.050'', fiat = ''0.040'',
                    toc = ''GBP'', mess = ''hello''\<rparr>),
      Call XwsGet, Emit (MyWServers ''1'' ''<p>wallet1</p>''), Call StatusGet,
      Emit (MyStatus ''up'' ''ok''), Call MempoolGet, Emit (MyMem ''2''),
      Emit (MemUpdate ''tx1tx2''),
      Emit (MyToast ''There are 2 transactions in local mempool''), Call BlockGet,
      Call BlockDetailsGet, Emit (MyLatest 1050 ''diff''), Call ListLimGet,
      Emit (MyTransactions ''rows''), Sleep 10]"
  by (simp add: sync_defs)

lemma ex_body_up_result:
  "fst (snd (main_info_body ex_config ex_world (started Missing (Parsed ex_dump)))) = Inr ()"
  by (simp add: sync_defs)

lemma started_slot: "(started pf df)\<lparr>cmc_thread := None\<rparr> = started pf df"
  by (simp add: started_def)

lemma started_locals:
  "(started pf df)\<lparr>l_count := 0, l_current_block := InitialStr ''1'',
                   l_last_block := InitialStr ''0''\<rparr> = started pf df"
  by (simp add: started_def)

text \<open>
  A closed instance: the first iteration fails (the wallet servers cannot be asked),
  the second runs.
\<close>

theorem loop_resumes_after_exception_witness:
  "main_info_body ex_config ex_world_down (started Missing (Parsed ex_dump)) =
     ([Call AnnGet, Call PriceApiGet, Emit (MyInfo (ex_dump\<lparr>mess := ''hello''\<rparr>)),
       Call XwsGet, Emit (MyWServers ''0'' [])],
      Inl UnboundLocalError, started Missing (Parsed ex_dump))
   \<and> fst (main_info_loop ex_config [ex_world_down, ex_world] (started Missing (Parsed ex_dump))) =
       [Call AnnGet, Call PriceApiGet, Emit (MyInfo (ex_dump\<lparr>mess := ''hello''\<rparr>)),
        Call XwsGet, Emit (MyWServers ''0'' [])]
       @ [LogError ''Error in main_info loop: '' UnboundLocalError,
          LogInfo ''Restarting main_info loop in 10 seconds...'', Sleep 10]
       @ fst (main_info_loop ex_config [ex_world] (started Missing (Parsed ex_dump)))
   \<and> length (filter (\<lambda>e. e = Sleep 10)
         (fst (main_info_loop ex_config [ex_world_down, ex_world]
                 (started Missing (Parsed ex_dump))))) = 2"
  using loop_resumes_after_exception [of ex_config ex_world_down
      "started Missing (Parsed ex_dump)" _ UnboundLocalError "started Missing (Parsed ex_dump)"
      "[ex_world]"]
    loop_resumes_after_exception [of ex_config ex_world_down
      "started Missing (Parsed ex_dump)" _ UnboundLocalError "started Missing (Parsed ex_dump)"
      "[ex_world_down, ex_world]"]
  by (simp add: ex_body_down started_slot)

text \<open>
  C6 as stated fails: after the handler's sleep the same loop performs the next
  iteration, without any new connection.
\<close>

theorem loop_stops_counterexample:
  "fst (main_info ex_config [ex_world_down, ex_world] (started Missing (Parsed ex_dump))) =
     [Call AnnGet, Call PriceApiGet, Emit (MyInfo (ex_dump\<lparr>mess := ''hello''\<rparr>)),
      Call XwsGet, Emit (MyWServers ''0'' []),
      LogError ''Error in main_info loop: '' UnboundLocalError,
      LogInfo ''Restarting main_info loop in 10 seconds...'', Sleep 10,
      Call AnnGet, Call PriceApiGet,
      Emit (MyInfo \<lparr>btc = ''0.00000100'', usd = ''0.050'', fiat = ''0.040'',
                    toc = ''GBP'', mess = ''hello''\<rparr>),
      Call XwsGet, Emit (MyWServers ''1'' ''<p>wallet1</p>''), Call StatusGet,
      Emit (MyStatus ''up'' ''ok''), Call MempoolGet, Emit (MyMem ''2''),
      Emit (MemUpdate ''tx1tx2''),
      Emit (MyToast ''There are 2 transactions in local mempool''), Call BlockGet,
      Call BlockDetailsGet, Emit (MyLatest 1050 ''diff''), Call ListLimGet,
      Emit (MyTransactions ''rows''), Sleep 10]"
  using ex_body_up ex_body_up_result
  by (auto simp: main_info_def started_locals ex_body_down started_slot loop_handler_def
      split: prod.splits sum.splits)

subsection \<open>Failed fetches\<close>

text \<open>
  C7 (as the code has it). A live price request that fails with a request exception
  (unreachable, timeout) or whose JSON lacks the prices is recovered inside
  \<open>get_cmc_info\<close>: with a readable \<open>dump_cmc.txt\<close> the persisted values are
  published on \<open>my_info\<close> and the persisted price table is returned, nothing is
  raised. A failed mempool request publishes the count 0 and the empty list, not the
  last known values; a failed request for the last block publishes nothing and keeps
  the last height.
\<close>

theorem failed_fetch_fallback:
  "((w_price w = RequestError \<or> w_price w = Reply (Json None)) \<and> dump_cmc s = Parsed x \<longrightarrow>
      get_cmc_info w alt testmess True dv s =
        ([Call PriceApiGet, Emit (MyInfo (x\<lparr>mess := testmess\<rparr>))],
         Inr (case price_info s of Parsed t \<Rightarrow> t | Missing \<Rightarrow> default_cmc_vals
              | Unparseable \<Rightarrow> default_cmc_vals),
         s))
   \<and> (w_mempool w = None \<longrightarrow>
        get_mem_tx_no cfg w = [Call MempoolGet, Emit (MyMem ''0''), Emit (MemUpdate (mem_html cfg []))])
   \<and> (w_block w = RequestError \<longrightarrow> get_block_info w last_blk = ([Call BlockGet], Inr last_blk))"
  by (auto simp: get_cmc_info_def cmc_alt_def get_mem_tx_no_def get_block_info_def Let_def)

text \<open>A closed instance: nothing can be reached, the dump of an earlier run exists.\<close>

theorem failed_fetch_fallback_witness:
  "get_cmc_info ex_world_down ''GBP'' ''hello'' True False (started Missing (Parsed ex_dump)) =
     ([Call PriceApiGet, Emit (MyInfo (ex_dump\<lparr>mess := ''hello''\<rparr>))],
      Inr default_cmc_vals, started Missing (Parsed ex_dump))
   \<and> get_mem_tx_no ex_config ex_world_down =
       [Call MempoolGet, Emit (MyMem ''0''), Emit (MemUpdate [])]
   \<and> get_block_info ex_world_down (BlockHeight 1050) = ([Call BlockGet], Inr (BlockHeight 1050))"
  using failed_fetch_fallback [of ex_world_down "started Missing (Parsed ex_dump)" ex_dump
      "''GBP''" "''hello''" False ex_config "BlockHeight 1050"]
  by (simp add: ex_world_down_def started_def startup_cmc_vals_def ex_config_def)

text \<open>
  C7 as stated fails: after an iteration that published two mempool transactions, a
  failed mempool request publishes 0 on the same topic, and a failed block request
  publishes nothing.
\<close>

theorem failed_mempool_fetch_counterexample:
  "get_mem_tx_no ex_config ex_world =
     [Call MempoolGet, Emit (MyMem ''2''), Emit (MemUpdate ''tx1tx2''),
      Emit (MyToast ''There are 2 transactions in local mempool'')]
   \<and> get_mem_tx_no ex_config ex_world_down =
       [Call MempoolGet, Emit (MyMem ''0''), Emit (MemUpdate [])]
   \<and> Emit (MyMem ''2'') \<notin> set (get_mem_tx_no ex_config ex_world_down)
   \<and> get_block_info ex_world_down (BlockHeight 1050) = ([Call BlockGet], Inr (BlockHeight 1050))"
  by (simp add: get_mem_tx_no_def get_block_info_def ex_config_def ex_world_def
      ex_world_down_def str_nat.simps Let_def)

text \<open>
  A closed instance of C10: no price file, no dump, two iterations without network and
  one with.
\<close>

theorem startup_price_table_witness:
  "startup_cmc_vals Missing = (default_cmc_vals, Parsed default_cmc_vals)
   \<and> list_all cmc_val_complete [ex_world_down, ex_world_down, ex_world]
   \<and> has_all_currencies (cmc_vals (started Missing Missing))
   \<and> has_all_currencies
       (cmc_vals (snd (main_info ex_config [ex_world_down, ex_world_down, ex_world]
                         (started Missing Missing))))"
proof -
  have ws: "list_all cmc_val_complete [ex_world_down, ex_world_down, ex_world]"
    by (simp add: cmc_val_complete_def ex_world_down_def ex_world_def has_all_currencies_def
        supported_currencies_def)
  have pf: "(Missing :: cmc_table disk_file) = Missing \<or> (Missing :: cmc_table disk_file) = Unparseable"
    by simp
  from startup_price_table [OF pf ws, of Missing ex_config] ws show ?thesis
    by simp
qed

subsection \<open>The price topic and the counter\<close>

lemma price_events_append: "price_events (xs @ ys) = price_events xs @ price_events ys"
  by (induction xs rule: price_events.induct) simp_all

lemma fst_then_do:
  "fst (then_do m f) =
     fst m @ (case fst (snd m) of Inl err \<Rightarrow> [] | Inr v \<Rightarrow> fst (f v (snd (snd m))))"
  by (cases m; cases "fst (snd m)") (auto simp: then_do_def)

lemma price_events_then_do:
  "price_events (fst (then_do m f)) =
     price_events (fst m) @ (case fst (snd m) of Inl err \<Rightarrow> []
                             | Inr v \<Rightarrow> price_events (fst (f v (snd (snd m)))))"
  by (simp add: fst_then_do price_events_append split: sum.splits)

lemma get_message_info_price_events: "price_events (fst (get_message_info cfg w)) = []"
  by (simp add: get_message_info_def Let_def split: reply.splits option.splits prod.splits)

lemma cmc_alt_price_events:
  "price_events (fst (cmc_alt m s)) =
     (case dump_cmc s of Parsed x \<Rightarrow> [x\<lparr>mess := m\<rparr>] | Missing \<Rightarrow> [] | Unparseable \<Rightarrow> [])"
  by (simp add: cmc_alt_def split: disk_file.splits)

lemma cmc_alt_isl: "isl (snd (cmc_alt m s)) \<longleftrightarrow> (\<forall>x. dump_cmc s \<noteq> Parsed x)"
  by (simp add: cmc_alt_def split: disk_file.splits)

lemma other_steps_price_events:
  "price_events (fst (wallet_step w s)) = []"
  "price_events (fst (get_status_info cfg w)) = []"
  "price_events (get_mem_tx_no cfg w) = []"
  "price_events (fst (block_step w s)) = []"
  "price_events (fst (transactions_step w s)) = []"
  by (simp_all add: wallet_step_def block_step_def transactions_step_def then_do_def
      get_wallet_servers_def get_status_info_def get_mem_tx_no_def get_block_info_def
      get_50_def Let_def split: sum.splits option.splits reply.splits)

lemma main_info_body_price_events:
  "price_events (fst (main_info_body cfg w s)) = price_events (fst (price_step cfg w s))"
  by (simp add: main_info_body_def price_events_then_do other_steps_price_events
      split: sum.splits)

lemma price_step_cached:
  assumes "snd (get_message_info cfg w) = Inr vip_mess"
    and "\<not> (l_count s mod 60 = 0 \<and> \<not> dev_state cfg)"
  shows "price_events (fst (price_step cfg w s)) =
           (case dump_cmc s of Parsed x \<Rightarrow> [x\<lparr>mess := vip_mess\<rparr>] | Missing \<Rightarrow> []
            | Unparseable \<Rightarrow> [])"
    and "isl (fst (snd (price_step cfg w s))) \<longleftrightarrow> (\<forall>x. dump_cmc s \<noteq> Parsed x)"
  using assms
  by (auto simp: price_step_def then_do_def get_cmc_info_def get_message_info_price_events
      price_events_append cmc_alt_price_events cmc_alt_def
      split: sum.splits disk_file.splits)

lemma price_step_no_message:
  assumes "isl (snd (get_message_info cfg w))"
  shows "price_events (fst (price_step cfg w s)) = []" and "isl (fst (snd (price_step cfg w s)))"
  using assms
  by (auto simp: price_step_def then_do_def get_message_info_price_events split: sum.splits)

lemma main_info_body_isl_price:
  "isl (fst (snd (price_step cfg w s))) \<Longrightarrow> isl (fst (snd (main_info_body cfg w s)))"
  by (auto simp: main_info_body_def isl_then_do split: sum.splits)

lemma then_do_succeeded:
  assumes "\<not> isl (fst (snd (then_do m f)))" and "Q (snd (snd m))"
    and "\<And>v s. Q s \<Longrightarrow> \<not> isl (fst (snd (f v s))) \<Longrightarrow> R (snd (snd (f v s)))"
  shows "R (snd (snd (then_do m f)))"
proof (cases m)
  case (fields es r s)
  with assms show ?thesis
    by (cases r) (auto simp: then_do_def)
qed

lemma main_info_body_completed_count:
  assumes "\<not> isl (fst (snd (main_info_body cfg w s)))"
  shows "l_count (snd (snd (main_info_body cfg w s))) =
           (if l_count s = 299 then 0 else l_count s + 1)"
  using assms unfolding main_info_body_def
  apply -
  apply (erule then_do_succeeded [where Q = "\<lambda>s'. l_count s' = l_count s"])
   apply (simp add: price_step_count)
  apply (erule then_do_succeeded [where Q = "\<lambda>s'. l_count s' = l_count s"])
   apply (simp add: wallet_step_count)
  apply (erule then_do_succeeded [where Q = "\<lambda>s'. l_count s' = l_count s"])
   apply simp
  apply (erule then_do_succeeded [where Q = "\<lambda>s'. l_count s' = l_count s"])
   apply simp
  apply (erule then_do_succeeded [where Q = "\<lambda>s'. l_count s' = l_count s"])
   apply (simp add: block_step_count)
  apply (erule then_do_succeeded [where Q = "\<lambda>s'. l_count s' = l_count s"])
   apply (simp add: transactions_step_count)
  apply simp
  done

lemma main_info_body_count:
  "l_count (snd (snd (main_info_body cfg w s))) =
     (if isl (fst (snd (main_info_body cfg w s))) then l_count s
      else if l_count s = 299 then 0 else l_count s + 1)"
  by (simp add: main_info_body_failed_count main_info_body_completed_count)

lemma cmc_alt_no_log: "LogInfo t \<notin> set (fst (cmc_alt m s))"
  by (simp add: cmc_alt_def split: disk_file.splits)

lemma get_cmc_info_no_log: "LogInfo t \<notin> set (fst (get_cmc_info w alt m mystate dv s))"
  by (simp add: get_cmc_info_def Let_def cmc_alt_no_log
      split: reply.splits option.splits prod.splits price_body.splits)

lemma get_message_info_no_log: "LogInfo t \<notin> set (fst (get_message_info cfg w))"
  by (simp add: get_message_info_def Let_def split: reply.splits option.splits prod.splits)

lemma price_step_no_log: "LogInfo t \<notin> set (fst (price_step cfg w s))"
  by (simp add: price_step_def set_then_do get_message_info_no_log get_cmc_info_no_log
      split: sum.splits)

lemma wallet_step_no_log: "LogInfo t \<notin> set (fst (wallet_step w s))"
  by (simp add: wallet_step_def set_then_do get_wallet_servers_def
      split: sum.splits option.splits)

lemma get_status_info_no_log: "LogInfo t \<notin> set (fst (get_status_info cfg w))"
  by (simp add: get_status_info_def split: reply.splits)

lemma get_mem_tx_no_no_log: "LogInfo t \<notin> set (get_mem_tx_no cfg w)"
  by (simp add: get_mem_tx_no_def Let_def split: option.splits)

lemma block_step_no_log: "LogInfo t \<notin> set (fst (block_step w s))"
  by (simp add: block_step_def set_then_do get_block_info_def
      split: sum.splits reply.splits)

lemma transactions_step_no_log: "LogInfo t \<notin> set (fst (transactions_step w s))"
  by (simp add: transactions_step_def set_then_do get_50_def
      split: sum.splits option.splits)

lemma main_info_body_no_restart_log: "LogInfo t \<notin> set (fst (main_info_body cfg w s))"
  by (simp add: main_info_body_def set_then_do price_step_no_log wallet_step_no_log
      get_status_info_no_log get_mem_tx_no_no_log block_step_no_log transactions_step_no_log
      split: sum.splits)

lemma main_info_loop_append:
  "main_info_loop cfg (xs @ ys) s =
     (fst (main_info_loop cfg xs s) @ fst (main_info_loop cfg ys (snd (main_info_loop cfg xs s))),
      snd (main_info_loop cfg ys (snd (main_info_loop cfg xs s))))"
  by (induction xs arbitrary: s) (auto split: prod.splits sum.splits)

lemma main_info_loop_count:
  "l_count s < 300 \<Longrightarrow>
   length (filter (\<lambda>e. e = LogInfo ''Restarting main_info loop in 10 seconds...'')
             (fst (main_info_loop cfg ws s))) \<le> length ws
   \<and> l_count (snd (main_info_loop cfg ws s)) =
       (l_count s + (length ws
          - length (filter (\<lambda>e. e = LogInfo ''Restarting main_info loop in 10 seconds...'')
                      (fst (main_info_loop cfg ws s))))) mod 300"
proof (induction ws arbitrary: s)
  case Nil
  then show ?case by simp
next
  case (Cons w ws)
  let ?restart = "LogInfo ''Restarting main_info loop in 10 seconds...''"
  obtain es r s' where body: "main_info_body cfg w s = (es, r, s')"
    by (cases "main_info_body cfg w s") auto
  from main_info_body_no_restart_log [of _ cfg w s] body
  have es: "filter (\<lambda>e. e = ?restart) es = []"
    by (auto simp: filter_empty_conv)
  from main_info_body_count [of cfg w s] body
  have c: "l_count s' = (if isl r then l_count s else if l_count s = 299 then 0 else l_count s + 1)"
    by simp
  show ?case
  proof (cases r)
    case (Inl err)
    with c Cons.prems have "l_count (s'\<lparr>cmc_thread := None\<rparr>) < 300"
      and same: "l_count (s'\<lparr>cmc_thread := None\<rparr>) = l_count s" by simp_all
    from Cons.IH [OF this(1)] same body Inl es show ?thesis
      by (simp add: loop_handler_def)
  next
    case (Inr u)
    with c Cons.prems have lt: "l_count s' < 300"
      and next_c: "l_count s' = (l_count s + 1) mod 300" by auto
    from Cons.IH [OF lt] next_c body Inr es show ?thesis
      by (simp add: mod_add_left_eq Suc_diff_le)
  qed
qed

lemma main_info_count:
  "l_count (snd (main_info cfg ws s)) =
     (length ws
        - length (filter (\<lambda>e. e = LogInfo ''Restarting main_info loop in 10 seconds...'')
                    (fst (main_info cfg ws s)))) mod 300"
  using main_info_loop_count [of "s\<lparr>l_count := 0, l_current_block := InitialStr ''1'',
      l_last_block := InitialStr ''0''\<rparr>" cfg ws]
  by (simp add: main_info_def)

lemma main_info_append:
  "fst (main_info cfg (ws @ [w]) s) =
     fst (main_info cfg ws s) @ fst (main_info_loop cfg [w] (snd (main_info cfg ws s)))"
  by (simp add: main_info_def main_info_loop_append)

subsection \<open>Cadence of the message and the price\<close>

lemma ex_body_count_7:
  "fst (main_info_body ex_config ex_world ((started Missing (Parsed ex_dump))\<lparr>l_count := 7\<rparr>)) =
     [Call AnnGet,
      Emit (MyInfo (ex_dump\<lparr>mess := ''hello''\<rparr>)),
      Call StatusGet, Emit (MyStatus ''up'' ''ok''), Call MempoolGet,
      Emit (MyMem ''2''), Emit (MemUpdate ''tx1tx2''),
      Emit (MyToast ''There are 2 transactions in local mempool''), Call BlockGet,
      Call BlockDetailsGet, Emit (MyLatest 1050 ''diff''), Call ListLimGet,
      Emit (MyTransactions ''rows''), Sleep 10]"
  by (simp add: main_info_body_def price_step_def wallet_step_def block_step_def
      transactions_step_def then_do_def get_message_info_def get_cmc_info_def cmc_alt_def
      get_wallet_servers_def get_status_info_def get_mem_tx_no_def get_block_info_def
      get_50_def ex_config_def ex_world_def started_def startup_cmc_vals_def ex_dump_def
      Let_def str_nat.simps)


lemma ex_run_down:
  "fst (main_info ex_config [ex_world_down] (started Missing (Parsed ex_dump))) =
     [Call AnnGet, Call PriceApiGet, Emit (MyInfo (ex_dump\<lparr>mess := ''hello''\<rparr>)),
      Call XwsGet, Emit (MyWServers ''0'' []),
      LogError ''Error in main_info loop: '' UnboundLocalError,
      LogInfo ''Restarting main_info loop in 10 seconds...'', Sleep 10]"
  by (simp add: main_info_def started_locals ex_body_down loop_handler_def)

lemma ex_run_down_up:
  "fst (main_info ex_config [ex_world_down, ex_world] (started Missing (Parsed ex_dump))) =
     [Call AnnGet, Call PriceApiGet, Emit (MyInfo (ex_dump\<lparr>mess := ''hello''\<rparr>)),
      Call XwsGet, Emit (MyWServers ''0'' []),
      LogError ''Error in main_info loop: '' UnboundLocalError,
      LogInfo ''Restarting main_info loop in 10 seconds...'', Sleep 10,
      Call AnnGet, Call PriceApiGet,
      Emit (MyInfo \<lparr>btc = ''0.00000100'', usd = ''0.050'', fiat = ''0.040'',
                    toc = ''GBP'', mess = ''hello''\<rparr>),
      Call XwsGet, Emit (MyWServers ''1'' ''<p>wallet1</p>''), Call StatusGet,
      Emit (MyStatus ''up'' ''ok''), Call MempoolGet, Emit (MyMem ''2''),
      Emit (MemUpdate ''tx1tx2''),
      Emit (MyToast ''There are 2 transactions in local mempool''), Call BlockGet,
      Call BlockDetailsGet, Emit (MyLatest 1050 ''diff''), Call ListLimGet,
      Emit (MyTransactions ''rows''), Sleep 10]"
  using ex_body_up ex_body_up_result
  by (auto simp: main_info_def started_locals ex_body_down started_slot loop_handler_def
      split: prod.splits sum.splits)

lemma ex_message: "snd (get_message_info ex_config ex_world) = Inr ''hello''"
  by (simp add: get_message_info_def ex_config_def ex_world_def)

lemma ex_no_message:
  "isl (snd (get_message_info ex_config (ex_world\<lparr>w_message_file := None\<rparr>)))"
  by (simp add: get_message_info_def ex_config_def ex_world_def)

text \<open>
  C8 (as the code has it). Every iteration asks the node for the announcement:
  \<open>get_message_info\<close> is called in both branches of the test on the count. The
  live price request is made exactly in the iterations that find the count a multiple
  of 60, when the explorer is not in developer mode and the message step has returned.
  In the other iterations in which the message step returned, the price topic carries
  the values of \<open>dump_cmc.txt\<close> with the current message, and when that file cannot
  be read nothing is published on it and the iteration fails, as it does when the
  message step raises. The count starts at 0, moves on by one (299 to 0) with every
  completed iteration and stays with every failed one: the iteration that follows
  \<open>n\<close> iterations of which \<open>f\<close> failed asks the price service exactly when
  \<open>n - f\<close> is a multiple of 60. So it is every 60th iteration of a run without
  failures, and an iteration that fails at such a count is followed by another live
  request.
\<close>

theorem message_and_price_cadence:
  "Call AnnGet \<in> set (fst (main_info_body cfg w s))
   \<and> (Call PriceApiGet \<in> set (fst (main_info_body cfg w s)) \<longleftrightarrow>
        \<not> isl (snd (get_message_info cfg w)) \<and> l_count s mod 60 = 0 \<and> \<not> dev_state cfg)
   \<and> (snd (get_message_info cfg w) = Inr vip_mess
        \<and> \<not> (l_count s mod 60 = 0 \<and> \<not> dev_state cfg) \<and> dump_cmc s = Parsed x
      \<longrightarrow> price_events (fst (main_info_body cfg w s)) = [x\<lparr>mess := vip_mess\<rparr>])
   \<and> (snd (get_message_info cfg w) = Inr vip_mess
        \<and> \<not> (l_count s mod 60 = 0 \<and> \<not> dev_state cfg) \<and> (\<forall>x. dump_cmc s \<noteq> Parsed x)
      \<longrightarrow> price_events (fst (main_info_body cfg w s)) = []
          \<and> isl (fst (snd (main_info_body cfg w s))))
   \<and> (isl (snd (get_message_info cfg w))
      \<longrightarrow> price_events (fst (main_info_body cfg w s)) = []
          \<and> isl (fst (snd (main_info_body cfg w s))))
   \<and> l_count (snd (snd (main_info_body cfg w s))) =
       (if isl (fst (snd (main_info_body cfg w s))) then l_count s
        else if l_count s = 299 then 0 else l_count s + 1)
   \<and> l_count (snd (main_info cfg ws s0)) =
       (length ws
          - length (filter (\<lambda>e. e = LogInfo ''Restarting main_info loop in 10 seconds...'')
                      (fst (main_info cfg ws s0)))) mod 300
   \<and> (Call PriceApiGet \<in> set (fst (main_info_body cfg w (snd (main_info cfg ws s0)))) \<longleftrightarrow>
        \<not> isl (snd (get_message_info cfg w))
        \<and> (length ws
             - length (filter (\<lambda>e. e = LogInfo ''Restarting main_info loop in 10 seconds...'')
                         (fst (main_info cfg ws s0)))) mod 60 = 0
        \<and> \<not> dev_state cfg)
   \<and> fst (main_info cfg (ws @ [w]) s0) =
       fst (main_info cfg ws s0) @ fst (main_info_loop cfg [w] (snd (main_info cfg ws s0)))"
proof -
  have cached: "price_events (fst (main_info_body cfg w s)) = [x\<lparr>mess := vip_mess\<rparr>]"
    if "snd (get_message_info cfg w) = Inr vip_mess"
      "\<not> (l_count s mod 60 = 0 \<and> \<not> dev_state cfg)" "dump_cmc s = Parsed x"
    using price_step_cached(1) [OF that(1,2)] that(3)
    by (simp add: main_info_body_price_events)
  have nodump: "price_events (fst (main_info_body cfg w s)) = []
      \<and> isl (fst (snd (main_info_body cfg w s)))"
    if "snd (get_message_info cfg w) = Inr vip_mess"
      "\<not> (l_count s mod 60 = 0 \<and> \<not> dev_state cfg)" "\<forall>x. dump_cmc s \<noteq> Parsed x"
    using price_step_cached [OF that(1,2)] that(3) main_info_body_isl_price [of cfg w s]
    by (auto simp: main_info_body_price_events split: disk_file.splits)
  have nomsg: "price_events (fst (main_info_body cfg w s)) = []
      \<and> isl (fst (snd (main_info_body cfg w s)))"
    if "isl (snd (get_message_info cfg w))"
    using price_step_no_message [OF that, of s] main_info_body_isl_price [of cfg w s]
    by (simp add: main_info_body_price_events)
  have m60: "(n mod 300) mod 60 = n mod 60" for n :: nat
    by (simp add: mod_mod_cancel)
  have run: "Call PriceApiGet \<in> set (fst (main_info_body cfg w (snd (main_info cfg ws s0)))) \<longleftrightarrow>
        \<not> isl (snd (get_message_info cfg w))
        \<and> (length ws
             - length (filter (\<lambda>e. e = LogInfo ''Restarting main_info loop in 10 seconds...'')
                         (fst (main_info cfg ws s0)))) mod 60 = 0
        \<and> \<not> dev_state cfg"
    by (simp add: main_info_body_calls price_step_effects(2) main_info_count m60)
  show ?thesis
    using cached nodump nomsg run
    by (simp add: main_info_body_calls price_step_effects(2) main_info_body_count
        main_info_count main_info_append)
qed

text \<open>
  Closed instances: the counts 7 and 60 with a dump, the count 7 without one, an
  unreadable \<open>message.txt\<close>, and the iterations that follow one failed iteration and
  one failed and one completed iteration.
\<close>

theorem message_and_price_cadence_witness:
  "Call AnnGet \<in> set (fst (main_info_body ex_config ex_world
       ((started Missing (Parsed ex_dump))\<lparr>l_count := 7\<rparr>)))
   \<and> Call PriceApiGet \<notin> set (fst (main_info_body ex_config ex_world
       ((started Missing (Parsed ex_dump))\<lparr>l_count := 7\<rparr>)))
   \<and> Call PriceApiGet \<in> set (fst (main_info_body ex_config ex_world
       ((started Missing (Parsed ex_dump))\<lparr>l_count := 60\<rparr>)))
   \<and> price_events (fst (main_info_body ex_config ex_world
       ((started Missing (Parsed ex_dump))\<lparr>l_count := 7\<rparr>))) = [ex_dump\<lparr>mess := ''hello''\<rparr>]
   \<and> price_events (fst (main_info_body ex_config ex_world
       ((started Missing Missing)\<lparr>l_count := 7\<rparr>))) = []
   \<and> isl (fst (snd (main_info_body ex_config ex_world
       ((started Missing Missing)\<lparr>l_count := 7\<rparr>))))
   \<and> isl (fst (snd (main_info_body ex_config (ex_world\<lparr>w_message_file := None\<rparr>)
       (started Missing (Parsed ex_dump)))))
   \<and> l_count (snd (main_info ex_config [ex_world_down] (started Missing (Parsed ex_dump)))) = 0
   \<and> l_count (snd (main_info ex_config [ex_world_down, ex_world]
                     (started Missing (Parsed ex_dump)))) = 1
   \<and> Call PriceApiGet \<in> set (fst (main_info_body ex_config ex_world
       (snd (main_info ex_config [ex_world_down] (started Missing (Parsed ex_dump))))))
   \<and> Call PriceApiGet \<notin> set (fst (main_info_body ex_config ex_world
       (snd (main_info ex_config [ex_world_down, ex_world] (started Missing (Parsed ex_dump))))))"
proof -
  have dev: "\<not> dev_state ex_config" by (simp add: ex_config_def)
  have dump: "dump_cmc ((started Missing (Parsed ex_dump))\<lparr>l_count := 7\<rparr>) = Parsed ex_dump"
    "\<forall>x. dump_cmc ((started Missing Missing)\<lparr>l_count := 7\<rparr>) \<noteq> Parsed x"
    by (simp_all add: started_def)
  note a = message_and_price_cadence [where cfg = ex_config and w = ex_world
      and s = "(started Missing (Parsed ex_dump))\<lparr>l_count := 7\<rparr>" and vip_mess = "''hello''"
      and x = ex_dump and ws = "[ex_world_down, ex_world]"
      and ?s0.0 = "started Missing (Parsed ex_dump)"]
  note b = message_and_price_cadence [where cfg = ex_config and w = ex_world
      and s = "(started Missing Missing)\<lparr>l_count := 7\<rparr>" and vip_mess = "''hello''"
      and x = ex_dump and ws = "[ex_world_down]"
      and ?s0.0 = "started Missing (Parsed ex_dump)"]
  note c = message_and_price_cadence [where cfg = ex_config
      and w = "ex_world\<lparr>w_message_file := None\<rparr>"
      and s = "started Missing (Parsed ex_dump)" and vip_mess = "''hello''"
      and x = ex_dump and ws = "[]" and ?s0.0 = "started Missing (Parsed ex_dump)"]
  note d = message_and_price_cadence [where cfg = ex_config and w = ex_world
      and s = "(started Missing (Parsed ex_dump))\<lparr>l_count := 60\<rparr>" and vip_mess = "''hello''"
      and x = ex_dump and ws = "[]" and ?s0.0 = "started Missing (Parsed ex_dump)"]
  from a b c d dev dump show ?thesis
    by (simp add: ex_message ex_no_message ex_run_down ex_run_down_up)
qed

text \<open>
  C8 as stated fails: at the count 7, which is no multiple of 60, the announcement is
  fetched from the node.
\<close>

theorem message_fetched_every_iteration_counterexample:
  "l_count ((started Missing (Parsed ex_dump))\<lparr>l_count := 7\<rparr>) mod 60 \<noteq> 0
   \<and> Call AnnGet \<in> set (fst (main_info_body ex_config ex_world
         ((started Missing (Parsed ex_dump))\<lparr>l_count := 7\<rparr>)))"
  by (simp add: ex_body_count_7)


end
